theory Spec2Isabelle
  imports Main "HOL-Library.Sublist"
begin

section \<open>JavaScript string primitives used by the notebook module\<close>

text \<open>
  Strings are lists of 8-bit characters. The white space of \<^verbatim>\<open>String.prototype.trim\<close>
  and the white-space class of regular expressions are the same set of code units; in the
  8-bit range it is TAB, LF, VT, FF, CR, SPACE and NBSP. The line terminators, which the regular
  expression \<^verbatim>\<open>.\<close> does not match, are LF and CR in that range.
\<close>

definition is_space :: "char \<Rightarrow> bool" where
  "is_space c = (c \<in> {CHR 0x09, CHR 0x0A, CHR 0x0B, CHR 0x0C, CHR 0x0D, CHR 0x20, CHR 0xA0})"

definition is_line_terminator :: "char \<Rightarrow> bool" where
  "is_line_terminator c = (c \<in> {CHR 0x0A, CHR 0x0D})"

text \<open>\<^verbatim>\<open>s.trim()\<close>: white space removed at both ends.\<close>

definition trim :: "string \<Rightarrow> string" where
  "trim s = rev (dropWhile is_space (rev (dropWhile is_space s)))"

text \<open>
  \<^verbatim>\<open>s.split(sep)\<close> for a string separator and no limit. With the empty separator the
  result is the list of the code units of \<open>s\<close>. Otherwise the text is scanned from the left;
  at every position where the separator matches, the fragment collected so far is closed and the
  scan goes on behind the separator.
\<close>

function split_at :: "string \<Rightarrow> string \<Rightarrow> string list" where
  "split_at sep [] = [[]]"
| "split_at sep (c # cs) =
     (if sep \<noteq> [] \<and> prefix sep (c # cs)
      then [] # split_at sep (drop (length sep) (c # cs))
      else (case split_at sep cs of
              [] \<Rightarrow> [[c]]
            | f # fs \<Rightarrow> (c # f) # fs))"
  by pat_completeness auto
termination
  by (relation "measure (\<lambda>(sep, s). length s)") auto

definition split_js :: "string \<Rightarrow> string \<Rightarrow> string list" where
  "split_js sep s = (if sep = [] then map (\<lambda>c. [c]) s else split_at sep s)"

text \<open>\<^verbatim>\<open>xs.join(sep)\<close>: the elements with the separator between neighbours.\<close>

fun join_js :: "string \<Rightarrow> string list \<Rightarrow> string" where
  "join_js sep [] = []"
| "join_js sep [x] = x"
| "join_js sep (x # y # ys) = x @ sep @ join_js sep (y # ys)"

text \<open>
  The decimal rendering of a natural number, as a template literal renders the value of
  \<^verbatim>\<open>Date.now()\<close> or an array index.
\<close>

definition digit_char :: "nat \<Rightarrow> char" where
  "digit_char d = char_of (48 + d)"

fun number_to_string :: "nat \<Rightarrow> string" where
  "number_to_string n =
     (if n < 10 then [digit_char n]
      else number_to_string (n div 10) @ [digit_char (n mod 10)])"

declare number_to_string.simps [simp del]

section \<open>Data model\<close>

text \<open>A cell is \<^verbatim>\<open>{ id, content }\<close>.\<close>

record cell =
  cell_id :: string
  content :: string

text \<open>The two fields of \<^verbatim>\<open>DEFAULT_CONFIG\<close> that the cell engine reads.\<close>

record notebook_config =
  querySeparator :: string
  debounceDelay :: nat

definition DEFAULT_CONFIG :: notebook_config where
  "DEFAULT_CONFIG = \<lparr>querySeparator = '';'', debounceDelay = 300\<rparr>"

section \<open>Splitter\<close>

text \<open>
  \<^verbatim>\<open>parseQueries(content)\<close>. The clock is read once for every surviving fragment, inside
  the callback of the last \<^verbatim>\<open>map\<close>; \<open>now index\<close> is the reading taken for the fragment
  at \<open>index\<close>.
\<close>

definition parseQueries :: "notebook_config \<Rightarrow> (nat \<Rightarrow> nat) \<Rightarrow> string \<Rightarrow> cell list" where
  "parseQueries cfg now text =
     (if text = [] \<or> trim text = [] then []
      else
        (let queries = filter (\<lambda>query. length query > 0)
                         (map (\<lambda>query. trim query) (split_js (querySeparator cfg) text))
         in map (\<lambda>(query, index).
                   \<lparr>cell_id = ''cell_'' @ number_to_string (now index) @ ''_'' @ number_to_string index,
                    content = query\<rparr>)
                (zip queries [0..<length queries])))"

section \<open>Notebook state\<close>

text \<open>
  The value of a text box is read with its line breaks normalised: CR LF and a lone CR are
  returned as LF.
\<close>

fun normalize_newlines :: "string \<Rightarrow> string" where
  "normalize_newlines [] = []"
| "normalize_newlines [c] = (if c = CHR 0x0D then [CHR 0x0A] else [c])"
| "normalize_newlines (c # d # ds) =
     (if c = CHR 0x0D \<and> d = CHR 0x0A then CHR 0x0A # normalize_newlines ds
      else if c = CHR 0x0D then CHR 0x0A # normalize_newlines (d # ds)
      else c # normalize_newlines (d # ds))"

text \<open>
  The main editor handle as \<^verbatim>\<open>createTextareaWrapper\<close> builds it over a text box:
  \<^verbatim>\<open>setValue(text, 1)\<close> assigns the text to \<^verbatim>\<open>textarea.value\<close> and
  \<^verbatim>\<open>getValue()\<close> reads \<^verbatim>\<open>textarea.value\<close> back, with its line breaks normalised.
  \<open>buffer\<close> is the text last assigned. (An Ace editor does not return the text as it was
  written either: it keeps the lines and joins them with one kind of line break.) The handle
  counts the calls of \<^verbatim>\<open>setValue\<close>, so that a write that did not happen can be told
  from one that wrote the same text.
\<close>

record editor_handle =
  buffer :: string
  setValue_calls :: nat

definition ace_getValue :: "editor_handle \<Rightarrow> string" where
  "ace_getValue ed = normalize_newlines (buffer ed)"

definition ace_setValue :: "string \<Rightarrow> editor_handle \<Rightarrow> editor_handle" where
  "ace_setValue text ed = ed\<lparr>buffer := text, setValue_calls := Suc (setValue_calls ed)\<rparr>"

text \<open>
  The editing sub-widget of one cell. Both of its calls are guarded by \<^verbatim>\<open>try\<close> in the
  source: \<open>cell_getValue\<close> is \<open>None\<close> when \<^verbatim>\<open>getValue()\<close> throws, and
  \<open>destroy_throws\<close> says whether \<^verbatim>\<open>destroy()\<close> does.
\<close>

record cell_editor =
  cell_getValue :: "string option"
  destroy_throws :: bool

text \<open>
  The callbacks that the cell operations hand to \<^verbatim>\<open>setTimeout\<close>, as data. They run on a
  later turn of the event loop and are kept with their delay in the order of registration.
\<close>

datatype callback =
    CreateCellAceEditor cell nat
  | FocusNewCell "int option"
  | FocusCopiedCell nat
  | FocusCell int

text \<open>
  \<^verbatim>\<open>notebookState\<close>. \<open>aceEditor\<close> is \<open>None\<close> for \<^verbatim>\<open>null\<close>.
  \<open>cellEditors\<close> is the object keyed by cell index. \<open>debounceTimer\<close> holds the pending
  callback of the one debounce timer (its delay, and the arguments of
  \<^verbatim>\<open>updateCellContent\<close>), \<open>None\<close> when nothing is pending. \<open>cellsContainer\<close> lists the
  cell elements of \<^verbatim>\<open>.notebook-cells\<close> by the index and cell they were created for, and
  \<open>timeouts\<close> the other registered callbacks.
\<close>

record notebookState =
  cells :: "cell list"
  aceEditor :: "editor_handle option"
  debounceTimer :: "(nat \<times> int \<times> string) option"
  isNotebookMode :: bool
  config :: notebook_config
  cellEditors :: "nat \<rightharpoonup> cell_editor"
  cellsContainer :: "(nat \<times> cell) list"
  timeouts :: "(nat \<times> callback) list"

section \<open>Joiner\<close>

text \<open>\<^verbatim>\<open>syncCellsToAceEditor()\<close>.\<close>

definition syncCellsToAceEditor :: "notebookState \<Rightarrow> notebookState" where
  "syncCellsToAceEditor s =
     (case aceEditor s of
        None \<Rightarrow> s
      | Some ed \<Rightarrow>
          if \<not> isNotebookMode s then s
          else
            (let cellContents =
                   map (\<lambda>(cell, index).
                          (case cellEditors s index of
                             Some ce \<Rightarrow>
                               (case cell_getValue ce of
                                  Some v \<Rightarrow> trim v
                                | None \<Rightarrow> (if content cell \<noteq> [] then trim (content cell) else []))
                           | None \<Rightarrow> (if content cell \<noteq> [] then trim (content cell) else [])))
                       (zip (cells s) [0..<length (cells s)]);
                 fullContent =
                   join_js [CHR '';'', CHR 0x0A, CHR 0x0A]
                     (filter (\<lambda>c. length c > 0) cellContents);
                 currentContent = ace_getValue ed
             in if currentContent \<noteq> fullContent
                then s\<lparr>aceEditor := Some (ace_setValue fullContent ed)\<rparr>
                else s))"

section \<open>Cell edits and the debounce timer\<close>

text \<open>\<^verbatim>\<open>updateCellContent(index, content)\<close>.\<close>

definition updateCellContent :: "int \<Rightarrow> string \<Rightarrow> notebookState \<Rightarrow> notebookState" where
  "updateCellContent index text s =
     (if index \<ge> 0 \<and> index < int (length (cells s))
      then syncCellsToAceEditor
             (s\<lparr>cells := (cells s)[nat index := (cells s ! nat index)\<lparr>content := text\<rparr>]\<rparr>)
      else s)"

text \<open>
  \<^verbatim>\<open>debouncedUpdateCell(index, content)\<close>: \<^verbatim>\<open>clearTimeout\<close> drops the pending
  callback, whatever cell it was for, and \<^verbatim>\<open>setTimeout\<close> registers the new one.
\<close>

definition debouncedUpdateCell :: "int \<Rightarrow> string \<Rightarrow> notebookState \<Rightarrow> notebookState" where
  "debouncedUpdateCell index text s =
     s\<lparr>debounceTimer := Some (debounceDelay (config s), index, text)\<rparr>"

text \<open>The debounce timer expires: the pending callback, if any, runs once.\<close>

definition debounce_expires :: "notebookState \<Rightarrow> notebookState" where
  "debounce_expires s =
     (case debounceTimer s of
        None \<Rightarrow> s
      | Some (delay, index, text) \<Rightarrow> updateCellContent index text (s\<lparr>debounceTimer := None\<rparr>))"

section \<open>Cell lifecycle\<close>

text \<open>
  \<^verbatim>\<open>renderCells()\<close> and \<^verbatim>\<open>addNewCell(position = null)\<close> call each other: a render
  of an empty sequence adds a cell, and adding a cell renders. \<open>now\<close> is the reading of
  \<^verbatim>\<open>Date.now()\<close> that names a new cell.
\<close>

function renderCells :: "nat \<Rightarrow> notebookState \<Rightarrow> notebookState"
  and addNewCell :: "nat \<Rightarrow> int option \<Rightarrow> notebookState \<Rightarrow> notebookState" where
  "renderCells now s =
     (let s1 = s\<lparr>cellsContainer := map (\<lambda>(cell, index). (index, cell))
                                        (zip (cells s) [0..<length (cells s)]),
                  timeouts := timeouts s @
                              map (\<lambda>(cell, index). (0, CreateCellAceEditor cell index))
                                  (zip (cells s) [0..<length (cells s)])\<rparr>
      in if length (cells s) = 0 then addNewCell now None s1 else s1)"
| "addNewCell now position s =
     (let newCell = \<lparr>cell_id = ''cell_'' @ number_to_string now, content = []\<rparr>;
          s1 = (case position of
                  Some p \<Rightarrow>
                    if p \<ge> 0 \<and> p < int (length (cells s))
                    then s\<lparr>cells := take (nat p) (cells s) @ [newCell] @ drop (nat p) (cells s)\<rparr>
                    else s\<lparr>cells := cells s @ [newCell]\<rparr>
                | None \<Rightarrow> s\<lparr>cells := cells s @ [newCell]\<rparr>);
          s2 = renderCells now s1;
          s3 = syncCellsToAceEditor s2
      in s3\<lparr>timeouts := timeouts s3 @ [(100, FocusNewCell position)]\<rparr>)"
  by pat_completeness auto
termination
  by (relation "measure (\<lambda>x. case x of
                            Inl (now, s) \<Rightarrow> if cells s = [] then 2 else 0
                          | Inr (now, position, s) \<Rightarrow> 1)")
     (auto split: option.splits if_splits)

declare renderCells.simps [simp del] addNewCell.simps [simp del]

text \<open>\<^verbatim>\<open>copyCell(index)\<close>.\<close>

definition copyCell :: "nat \<Rightarrow> int \<Rightarrow> notebookState \<Rightarrow> notebookState" where
  "copyCell now index s =
     (if index < 0 \<or> index \<ge> int (length (cells s)) then s
      else
        (let cellContent =
               (case cellEditors s (nat index) of
                  Some ce \<Rightarrow>
                    (case cell_getValue ce of
                       Some v \<Rightarrow> v
                     | None \<Rightarrow> content (cells s ! nat index))
                | None \<Rightarrow> content (cells s ! nat index));
             copiedCell = \<lparr>cell_id = ''cell_'' @ number_to_string now, content = cellContent\<rparr>;
             insertPosition = nat index + 1;
             s1 = s\<lparr>cells := take insertPosition (cells s) @ [copiedCell] @
                                 drop insertPosition (cells s)\<rparr>;
             s2 = renderCells now s1;
             s3 = syncCellsToAceEditor s2
         in s3\<lparr>timeouts := timeouts s3 @ [(200, FocusCopiedCell insertPosition)]\<rparr>))"

text \<open>
  \<^verbatim>\<open>deleteCell(index)\<close>. \<open>focusIndex\<close> is \<open>-1\<close> when there is no focus target; the
  callback \<open>FocusCell focusIndex\<close> is registered only for a target.
\<close>

definition deleteCell :: "nat \<Rightarrow> int \<Rightarrow> notebookState \<Rightarrow> notebookState" where
  "deleteCell now index s =
     (if index \<ge> 0 \<and> index < int (length (cells s))
      then
        (let s1 = (case cellEditors s (nat index) of
                     Some ce \<Rightarrow>
                       if destroy_throws ce then s
                       else s\<lparr>cellEditors := (cellEditors s)(nat index := None)\<rparr>
                   | None \<Rightarrow> s);
             totalCells = length (cells s1);
             focusIndex = (if totalCells > 1 then (if index > 0 then index - 1 else 0) else - 1);
             s2 = s1\<lparr>cells := take (nat index) (cells s1) @ drop (nat index + 1) (cells s1)\<rparr>;
             s3 = renderCells now s2;
             s4 = syncCellsToAceEditor s3
         in if focusIndex \<ge> 0 \<and> length (cells s4) > 0
            then s4\<lparr>timeouts := timeouts s4 @ [(100, FocusCell focusIndex)]\<rparr>
            else s4)
      else s)"

section \<open>Comment toggle\<close>

text \<open>
  The fallback text box of a cell: its text, its selection and the cell index parsed from
  \<^verbatim>\<open>dataset.cellIndex\<close>.
\<close>

record textarea =
  ta_value :: string
  selectionStart :: nat
  selectionEnd :: nat
  cellIndex :: int

text \<open>
  The two loops that find the line of a character offset. Each leaves its result at \<open>0\<close> when
  no line qualifies (\<open>None\<close> here). The first loop stops at the first line whose
  end lies strictly behind the offset, the second at the first line whose end reaches it.
\<close>

fun find_start_line :: "string list \<Rightarrow> nat \<Rightarrow> nat \<Rightarrow> nat \<Rightarrow> nat option" where
  "find_start_line [] start i charCount = None"
| "find_start_line (l # ls) start i charCount =
     (let lineLength = length l + 1
      in if charCount + lineLength > start then Some i
         else find_start_line ls start (i + 1) (charCount + lineLength))"

fun find_end_line :: "string list \<Rightarrow> nat \<Rightarrow> nat \<Rightarrow> nat \<Rightarrow> nat option" where
  "find_end_line [] end' i charCount = None"
| "find_end_line (l # ls) end' i charCount =
     (let lineLength = length l + 1
      in if charCount + lineLength \<ge> end' then Some i
         else find_end_line ls end' (i + 1) (charCount + lineLength))"

text \<open>
  Removing the token: the replacement of the match of leading white space, \<^verbatim>\<open>--\<close> and at
  most one white-space character by the leading white space. A line that does not match is
  returned as it is.
\<close>

definition remove_comment :: "string \<Rightarrow> string" where
  "remove_comment line =
     (let ws = takeWhile is_space line;
          rest = dropWhile is_space line
      in if prefix ''--'' rest
         then ws @ (case drop 2 rest of
                      [] \<Rightarrow> []
                    | c # cs \<Rightarrow> if is_space c then cs else c # cs)
         else line)"

text \<open>
  Adding the token: the line is matched as leading white space followed by the longest run of
  characters that are not line terminators, and rebuilt from these two groups with
  \<^verbatim>\<open>"-- "\<close> between them.
\<close>

definition add_comment :: "string \<Rightarrow> string" where
  "add_comment line =
     takeWhile is_space line @ ''-- '' @
     takeWhile (\<lambda>c. \<not> is_line_terminator c) (dropWhile is_space line)"

text \<open>
  \<^verbatim>\<open>toggleSQLComment(textarea)\<close>. It returns the text box and the notebook state, where the
  new text has been handed to \<^verbatim>\<open>debouncedUpdateCell\<close>.
\<close>

definition toggleSQLComment :: "textarea \<Rightarrow> notebookState \<Rightarrow> textarea \<times> notebookState" where
  "toggleSQLComment ta s =
     (let start = selectionStart ta;
          end' = selectionEnd ta;
          text = ta_value ta;
          lines = split_js [CHR 0x0A] text;
          startLine = (case find_start_line lines start 0 0 of Some i \<Rightarrow> i | None \<Rightarrow> 0);
          endLine0 = (case find_end_line lines end' 0 0 of Some i \<Rightarrow> i | None \<Rightarrow> 0);
          endLine = (if start = end' then startLine else endLine0);
          allCommented =
            list_all (\<lambda>i. let line = trim (lines ! i)
                           in \<not> (length line > 0 \<and> \<not> prefix ''--'' line))
                     [startLine..<Suc endLine];
          lines' =
            fold (\<lambda>i ls. let line = ls ! i
                          in if length (trim line) = 0 then ls
                             else if allCommented then ls[i := remove_comment line]
                             else ls[i := add_comment line])
                 [startLine..<Suc endLine] lines;
          newContent = join_js [CHR 0x0A] lines';
          lengthDiff = int (length newContent) - int (length text)
      in (ta\<lparr>ta_value := newContent,
             selectionStart := max 0 start,
             selectionEnd := nat (max 0 (int end' + lengthDiff))\<rparr>,
          debouncedUpdateCell (cellIndex ta) newContent s))"

section \<open>Observations on a state\<close>

text \<open>
  The content that the Joiner reads for the cell at index \<open>i\<close>: the value of the sub-widget
  registered under the index \<open>i\<close> when there is one and it can be read, the stored content
  otherwise. The registry is keyed by index; its entry under \<open>i\<close> need not have been created
  for the cell that is at index \<open>i\<close> now.
\<close>

definition registered_content :: "notebookState \<Rightarrow> nat \<Rightarrow> string" where
  "registered_content s i =
     (case cellEditors s i of
        None \<Rightarrow> content (cells s ! i)
      | Some ce \<Rightarrow> (case cell_getValue ce of
                     None \<Rightarrow> content (cells s ! i)
                   | Some v \<Rightarrow> v))"

text \<open>
  The text that a pass of the Joiner recomputes: the contents it reads, trimmed, without the
  empty ones, joined by \<open>;\<close> and a blank line.
\<close>

definition joined_contents :: "notebookState \<Rightarrow> string" where
  "joined_contents s =
     join_js [CHR '';'', CHR 0x0A, CHR 0x0A]
       (filter (\<lambda>t. t \<noteq> [])
          (map (\<lambda>i. trim (registered_content s i)) [0..<length (cells s)]))"

text \<open>
  The buffer as \<^verbatim>\<open>getValue()\<close> of the main editor returns it, and how often the buffer
  has been written.
\<close>

definition current_buffer :: "notebookState \<Rightarrow> string option" where
  "current_buffer s = map_option ace_getValue (aceEditor s)"

definition buffer_writes :: "notebookState \<Rightarrow> nat" where
  "buffer_writes s = (case aceEditor s of None \<Rightarrow> 0 | Some ed \<Rightarrow> setValue_calls ed)"

text \<open>The targets of the registered \<^verbatim>\<open>focusCell\<close> callbacks, in order of registration.\<close>

fun focus_target :: "nat \<times> callback \<Rightarrow> int list" where
  "focus_target (delay, FocusCell k) = [k]"
| "focus_target (delay, cb) = []"

definition focus_requests :: "notebookState \<Rightarrow> int list" where
  "focus_requests s = concat (map focus_target (timeouts s))"

section \<open>Inputs of the worked scenarios\<close>

text \<open>A clock that shows the same time at every reading.\<close>

definition constant_clock :: "nat \<Rightarrow> nat \<Rightarrow> nat" where
  "constant_clock t index = t"

text \<open>The buffer of the splitting scenario: two statements, each closed by the separator and a
  blank line, and two trailing spaces.\<close>

definition scenario_buffer :: string where
  "scenario_buffer =
     ''select 1;'' @ [CHR 0x0A, CHR 0x0A] @ ''select 2;'' @ [CHR 0x0A, CHR 0x0A] @ ''  ''"

text \<open>The value of a decimal digit, used to read a rendered number back.\<close>

definition digit_value :: "char \<Rightarrow> nat" where
  "digit_value ch = of_char ch - 48"

text \<open>
  A notebook in notebook mode over an empty buffer whose cells have no editing sub-widgets: the
  cells are given as pairs of id and content.
\<close>

definition plain_notebook :: "(string \<times> string) list \<Rightarrow> notebookState" where
  "plain_notebook cs =
     \<lparr>cells = map (\<lambda>(i, c). \<lparr>cell_id = i, content = c\<rparr>) cs,
      aceEditor = Some \<lparr>buffer = [], setValue_calls = 0\<rparr>,
      debounceTimer = None,
      isNotebookMode = True,
      config = DEFAULT_CONFIG,
      cellEditors = Map.empty,
      cellsContainer = [],
      timeouts = []\<rparr>"


text \<open>A text box for cell 0 that holds one line, with the cursor at its start.\<close>

definition one_line_textarea :: "string \<Rightarrow> textarea" where
  "one_line_textarea line =
     \<lparr>ta_value = line, selectionStart = 0, selectionEnd = 0, cellIndex = 0\<rparr>"

text \<open>A notebook in which every cell has a sub-widget that shows the stored content.\<close>

definition notebook_with_editors :: "(string \<times> string) list \<Rightarrow> notebookState" where
  "notebook_with_editors cs =
     (plain_notebook cs)
       \<lparr>cellEditors :=
          (\<lambda>i. if i < length cs
                then Some \<lparr>cell_getValue = Some (snd (cs ! i)), destroy_throws = False\<rparr>
                else None)\<rparr>"

section \<open>Properties of the string primitives\<close>

subsection \<open>Trimming\<close>
lemma all_dropWhile_iff: "(\<forall>x\<in>set (dropWhile P s). P x) \<longleftrightarrow> (\<forall>x\<in>set s. P x)"
  by (induction s) auto

lemma trim_Nil: "trim [] = []"
  by (simp add: trim_def)

lemma trim_empty_iff: "trim s = [] \<longleftrightarrow> (\<forall>c\<in>set s. is_space c)"
  by (simp add: trim_def dropWhile_eq_Nil_conv all_dropWhile_iff)





lemma trim_space_prefix:
  assumes "\<forall>c\<in>set w. is_space c"
  shows "trim (w @ s) = trim s"
  using assms by (simp add: trim_def dropWhile_append)

subsection \<open>Splitting on a one-character separator\<close>

lemma split_at_not_Nil: "split_at sep s \<noteq> []"
  by (induction sep s rule: split_at.induct) (auto split: list.splits)

lemma split_at_char_simps:
  "split_at [c] (c # xs) = [] # split_at [c] xs"
  "x \<noteq> c \<Longrightarrow> split_at [c] (x # xs) = (x # hd (split_at [c] xs)) # tl (split_at [c] xs)"
  using split_at_not_Nil [of "[c]" xs] by (auto split: list.splits)

lemma split_at_char_free: "c \<notin> set a \<Longrightarrow> split_at [c] a = [a]"
  by (induction a) (auto simp: split_at_char_simps)


lemma join_js_Cons: "ys \<noteq> [] \<Longrightarrow> join_js sep (x # ys) = x @ sep @ join_js sep ys"
  by (cases ys) auto

lemma join_split_at_char: "join_js [c] (split_at [c] s) = s"
proof (induction s)
  case Nil
  show ?case by simp
next
  case (Cons x xs)
  obtain f fs where e: "split_at [c] xs = f # fs"
    using split_at_not_Nil [of "[c]" xs] by (cases "split_at [c] xs") auto
  show ?case
  proof (cases "x = c")
    case True
    then show ?thesis using Cons e by (simp add: split_at_char_simps join_js_Cons)
  next
    case False
    then show ?thesis using Cons e by (cases fs) (simp_all add: split_at_char_simps)
  qed
qed

lemma split_at_char_fragments: "f \<in> set (split_at [c] s) \<Longrightarrow> c \<notin> set f"
proof (induction s arbitrary: f)
  case Nil
  then show ?case by simp
next
  case (Cons x xs)
  obtain g gs where e: "split_at [c] xs = g # gs"
    using split_at_not_Nil [of "[c]" xs] by (cases "split_at [c] xs") auto
  show ?case
  proof (cases "x = c")
    case True
    then show ?thesis using Cons by (auto simp: split_at_char_simps)
  next
    case False
    then show ?thesis using Cons e by (auto simp: split_at_char_simps)
  qed
qed

lemma length_split_at_char: "length (split_at [c] s) = Suc (count_list s c)"
proof (induction s)
  case Nil
  show ?case by simp
next
  case (Cons x xs)
  obtain g gs where e: "split_at [c] xs = g # gs"
    using split_at_not_Nil [of "[c]" xs] by (cases "split_at [c] xs") auto
  show ?case using Cons e by (cases "x = c") (auto simp: split_at_char_simps)
qed

lemma set_split_at: "f \<in> set (split_at sep s) \<Longrightarrow> set f \<subseteq> set s"
proof (induction sep s arbitrary: f rule: split_at.induct)
  case (1 sep)
  then show ?case by simp
next
  case (2 sep c cs)
  show ?case
  proof (cases "sep \<noteq> [] \<and> prefix sep (c # cs)")
    case True
    then have "f = [] \<or> f \<in> set (split_at sep (drop (length sep) (c # cs)))"
      using "2.prems" by auto
    then show ?thesis
    proof
      assume "f = []"
      then show ?thesis by simp
    next
      assume "f \<in> set (split_at sep (drop (length sep) (c # cs)))"
      then have "set f \<subseteq> set (drop (length sep) (c # cs))"
        using "2.IH"(1) True by blast
      then show ?thesis
        using set_drop_subset [of "length sep" "c # cs"] by blast
    qed
  next
    case False
    obtain g gs where e: "split_at sep cs = g # gs"
      using split_at_not_Nil [of sep cs] by (cases "split_at sep cs") auto
    from False "2.prems" e have "f = c # g \<or> f \<in> set gs" by auto
    then show ?thesis
    proof
      assume "f = c # g"
      moreover have "set g \<subseteq> set cs" using "2.IH"(2) [of g] False e by simp
      ultimately show ?thesis by auto
    next
      assume "f \<in> set gs"
      then have "set f \<subseteq> set cs" using "2.IH"(2) [of f] False e by simp
      then show ?thesis by auto
    qed
  qed
qed

subsection \<open>Rendered numbers\<close>

lemma digit_value_digit_char: "d < 10 \<Longrightarrow> digit_value (digit_char d) = d"
  by (simp add: digit_value_def digit_char_def)

lemma number_to_string_value:
  "foldl (\<lambda>a ch. 10 * a + digit_value ch) 0 (number_to_string n) = n"
proof (induction n rule: number_to_string.induct)
  case (1 n)
  show ?case
  proof (cases "n < 10")
    case True
    then show ?thesis by (simp add: number_to_string.simps [of n] digit_value_digit_char)
  next
    case False
    then show ?thesis using 1
      by (simp add: number_to_string.simps [of n] digit_value_digit_char)
  qed
qed

lemma number_to_string_inj: "number_to_string m = number_to_string n \<Longrightarrow> m = n"
  by (metis number_to_string_value)

lemma digit_char_not_underscore: "d < 10 \<Longrightarrow> digit_char d \<noteq> CHR ''_''"
proof
  assume d: "d < 10" and e: "digit_char d = CHR ''_''"
  have "digit_value (digit_char d) = d" using d by (rule digit_value_digit_char)
  moreover have "digit_value (CHR ''_'') = 47" by (simp add: digit_value_def)
  ultimately show False using d e by simp
qed

lemma underscore_notin_number: "CHR ''_'' \<notin> set (number_to_string n)"
proof (induction n rule: number_to_string.induct)
  case (1 n)
  show ?case
  proof (cases "n < 10")
    case True
    then show ?thesis using digit_char_not_underscore [of n] by (auto simp: number_to_string.simps [of n])
  next
    case False
    then show ?thesis using 1 digit_char_not_underscore [of "n mod 10"]
      by (auto simp: number_to_string.simps [of n])
  qed
qed

section \<open>The Splitter\<close>

lemma split_js_blank:
  assumes "\<forall>ch\<in>set buf. is_space ch"
  shows "filter (\<lambda>q. q \<noteq> []) (map trim (split_js sep buf)) = []"
proof -
  have "trim f = []" if "f \<in> set (split_js sep buf)" for f
  proof -
    have "set f \<subseteq> set buf"
      using that set_split_at [of f sep buf] by (auto simp: split_js_def split: if_splits)
    then show ?thesis using assms by (auto simp: trim_empty_iff)
  qed
  then show ?thesis by (auto simp: filter_empty_conv)
qed

lemma map_content_zip:
  "length js = length qs \<Longrightarrow>
   map content (map (\<lambda>(query, index). \<lparr>cell_id = g index, content = query\<rparr>) (zip qs js)) = qs"
  by (induction js qs rule: list_induct2) auto

lemma map_cell_id_zip:
  "length js = length qs \<Longrightarrow>
   map cell_id (map (\<lambda>(query, index). \<lparr>cell_id = g index, content = query\<rparr>) (zip qs js)) = map g js"
  by (induction js qs rule: list_induct2) auto

lemma map_content_numbered:
  "map content (map (\<lambda>(query, index). \<lparr>cell_id = g index, content = query\<rparr>) (zip qs [0..<length qs])) = qs"
  by (rule map_content_zip) simp

lemma map_cell_id_numbered:
  "map cell_id (map (\<lambda>(query, index). \<lparr>cell_id = g index, content = query\<rparr>) (zip qs [0..<length qs])) = map g [0..<length qs]"
  by (rule map_cell_id_zip) simp

lemma parseQueries_contents:
  "map content (parseQueries cfg now buf) =
     filter (\<lambda>q. q \<noteq> []) (map trim (split_js (querySeparator cfg) buf))"
proof (cases "buf = [] \<or> trim buf = []")
  case True
  then have "\<forall>ch\<in>set buf. is_space ch" by (auto simp: trim_empty_iff)
  then show ?thesis using True split_js_blank [of buf] by (simp add: parseQueries_def)
next
  case False
  have "map content (parseQueries cfg now buf) =
          filter (\<lambda>query. length query > 0)
                 (map (\<lambda>query. trim query) (split_js (querySeparator cfg) buf))"
    unfolding parseQueries_def Let_def using False
    by (simp only: if_False map_content_numbered)
  then show ?thesis by simp
qed

lemma length_parseQueries:
  "length (parseQueries cfg now buf) = length (filter (\<lambda>q. q \<noteq> []) (map trim (split_js (querySeparator cfg) buf)))"
  using arg_cong [OF parseQueries_contents, of length cfg now buf] by simp

lemma parseQueries_ids:
  "map cell_id (parseQueries cfg now buf) =
     map (\<lambda>i. ''cell_'' @ number_to_string (now i) @ ''_'' @ number_to_string i)
         [0..<length (parseQueries cfg now buf)]"
proof (cases "buf = [] \<or> trim buf = []")
  case True
  then show ?thesis by (simp add: parseQueries_def)
next
  case False
  have "map cell_id (parseQueries cfg now buf) =
          map (\<lambda>i. ''cell_'' @ number_to_string (now i) @ ''_'' @ number_to_string i)
            [0..<length (filter (\<lambda>query. length query > 0)
                 (map (\<lambda>query. trim query) (split_js (querySeparator cfg) buf)))]"
    unfolding parseQueries_def Let_def using False
    by (simp only: if_False map_cell_id_numbered)
  then show ?thesis using length_parseQueries [of cfg now buf] by simp
qed

lemma number_to_string_eval:
  "n < 10 \<Longrightarrow> number_to_string n = [digit_char n]"
  "\<not> n < 10 \<Longrightarrow> number_to_string n = number_to_string (n div 10) @ [digit_char (n mod 10)]"
  by (simp_all add: number_to_string.simps [of n])

lemma digit_char_eval:
  "digit_char 0 = CHR ''0''" "digit_char 1 = CHR ''1''" "digit_char 2 = CHR ''2''"
  "digit_char 3 = CHR ''3''" "digit_char 4 = CHR ''4''" "digit_char 5 = CHR ''5''"
  "digit_char 6 = CHR ''6''" "digit_char 7 = CHR ''7''" "digit_char 8 = CHR ''8''"
  "digit_char 9 = CHR ''9''" "digit_char (Suc 0) = CHR ''1''"
  unfolding digit_char_def by code_simp+

lemma cell_name_inj:
  "inj (\<lambda>i. ''cell_'' @ number_to_string (now i) @ ''_'' @ number_to_string i)"
proof (rule injI)
  fix i j
  assume "''cell_'' @ number_to_string (now i) @ ''_'' @ number_to_string i =
          ''cell_'' @ number_to_string (now j) @ ''_'' @ number_to_string j"
  then have "number_to_string (now i) @ CHR ''_'' # number_to_string i =
             number_to_string (now j) @ CHR ''_'' # number_to_string j" by simp
  then have "number_to_string i = number_to_string j"
    using append_Cons_eq_iff [OF underscore_notin_number underscore_notin_number] by blast
  then show "i = j" by (rule number_to_string_inj)
qed

lemma parseQueries_ids_distinct: "distinct (map cell_id (parseQueries cfg now buf))"
proof -
  have "inj_on (\<lambda>i. ''cell_'' @ number_to_string (now i) @ ''_'' @ number_to_string i) A" for A
    using cell_name_inj [of now] by (rule inj_on_subset) simp
  then show ?thesis
    by (subst parseQueries_ids) (simp add: distinct_map)
qed

lemma scenario_split: "filter (\<lambda>q. q \<noteq> []) (map trim (split_js '';'' scenario_buffer)) = [''select 1'', ''select 2'']"
  by (simp add: scenario_buffer_def split_js_def trim_def is_space_def)

text \<open>
  Claim C1. With a one-character separator \<open>c\<close>, the fragments that \<open>parseQueries\<close> works
  on are the pieces of the buffer between the occurrences of \<open>c\<close>: joined with \<open>c\<close> they
  give the buffer back, none of them contains \<open>c\<close>, and there is one more fragment than
  there are occurrences. The contents of the returned cells are the trimmed fragments that are
  not empty, in their order. The cell at position \<open>i\<close> is named from the clock reading taken
  for it and from \<open>i\<close>, and no two cells of the result share a name. The scenario buffer
  yields the contents \<open>select 1\<close> and \<open>select 2\<close>.
\<close>

theorem parseQueries_splits_trims_numbers:
  assumes "querySeparator cfg = [c]"
  shows "join_js [c] (split_js [c] buf) = buf
       \<and> (\<forall>f\<in>set (split_js [c] buf). c \<notin> set f)
       \<and> length (split_js [c] buf) = Suc (count_list buf c)
       \<and> map content (parseQueries cfg now buf) =
           filter (\<lambda>q. q \<noteq> []) (map trim (split_js [c] buf))
       \<and> map cell_id (parseQueries cfg now buf) =
           map (\<lambda>i. ''cell_'' @ number_to_string (now i) @ ''_'' @ number_to_string i)
               [0..<length (parseQueries cfg now buf)]
       \<and> distinct (map cell_id (parseQueries cfg now buf))
       \<and> map content (parseQueries DEFAULT_CONFIG now scenario_buffer) = [''select 1'', ''select 2'']"
proof -
  have 1: "join_js [c] (split_js [c] buf) = buf"
    by (simp add: split_js_def join_split_at_char)
  have 2: "\<forall>f\<in>set (split_js [c] buf). c \<notin> set f"
    by (simp add: split_js_def split_at_char_fragments)
  have 3: "length (split_js [c] buf) = Suc (count_list buf c)"
    by (simp add: split_js_def length_split_at_char)
  have 4: "map content (parseQueries cfg now buf) =
           filter (\<lambda>q. q \<noteq> []) (map trim (split_js [c] buf))"
    using parseQueries_contents [of cfg now buf] assms by simp
  have 5: "map content (parseQueries DEFAULT_CONFIG now scenario_buffer) = [''select 1'', ''select 2'']"
    using parseQueries_contents [of DEFAULT_CONFIG now scenario_buffer] scenario_split
    by (simp add: DEFAULT_CONFIG_def)
  show ?thesis
    using 1 2 3 4 5 parseQueries_ids [of cfg now buf] parseQueries_ids_distinct [of cfg now buf]
    by blast
qed

text \<open>The scenario of claim C1, with the default configuration and the clock at 17.\<close>

theorem parseQueries_splits_trims_numbers_witness:
  "querySeparator DEFAULT_CONFIG = [CHR '';'']
   \<and> parseQueries DEFAULT_CONFIG (constant_clock 17) scenario_buffer =
       [\<lparr>cell_id = ''cell_17_0'', content = ''select 1''\<rparr>,
        \<lparr>cell_id = ''cell_17_1'', content = ''select 2''\<rparr>]"
proof -
  let ?cs = "parseQueries DEFAULT_CONFIG (constant_clock 17) scenario_buffer"
  have h: "querySeparator DEFAULT_CONFIG = [CHR '';'']" by (simp add: DEFAULT_CONFIG_def)
  note t = parseQueries_splits_trims_numbers [OF h, of scenario_buffer "constant_clock 17"]
  from t have cs: "map content ?cs = [''select 1'', ''select 2'']" by blast
  from t have ids: "map cell_id ?cs =
      map (\<lambda>i. ''cell_'' @ number_to_string (constant_clock 17 i) @ ''_'' @ number_to_string i)
          [0..<length ?cs]" by blast
  have len: "length ?cs = 2" using arg_cong [OF cs, of length] by simp
  have "map (\<lambda>i. ''cell_'' @ number_to_string (constant_clock 17 i) @ ''_'' @ number_to_string i)
          [0..<2] = [''cell_17_0'', ''cell_17_1'']"
    by (simp add: constant_clock_def upt_rec number_to_string_eval digit_char_eval)
  then have ids': "map cell_id ?cs = [''cell_17_0'', ''cell_17_1'']"
    unfolding ids len by simp
  obtain a b where ab: "?cs = [a, b]"
    using len by (auto simp: length_Suc_conv numeral_2_eq_2)
  show ?thesis using h cs ids' unfolding ab by auto
qed

text \<open>
  Claim C5 as stated fails: a buffer without any separator that holds a statement yields one
  cell, not zero.
\<close>

theorem parseQueries_no_separator_counterexample:
  "CHR '';'' \<notin> set ''select 1''
   \<and> map content (parseQueries DEFAULT_CONFIG (constant_clock 17) ''select 1'') = [''select 1'']"
  by (simp add: parseQueries_def DEFAULT_CONFIG_def split_js_def trim_def is_space_def)

text \<open>
  Claim C5, amended. A buffer of white space only yields zero cells. With a one-character
  separator that does not occur in the buffer, the result is empty when the buffer is blank and
  is otherwise the single cell that holds the trimmed buffer.
\<close>

theorem parseQueries_blank_or_unseparated:
  assumes "querySeparator cfg = [c]"
  shows "((\<forall>ch\<in>set buf. is_space ch) \<longrightarrow> parseQueries cfg now buf = [])
       \<and> (c \<notin> set buf \<longrightarrow>
            map content (parseQueries cfg now buf) = (if trim buf = [] then [] else [trim buf]))"
proof -
  have "parseQueries cfg now buf = []" if "\<forall>ch\<in>set buf. is_space ch"
    using that by (simp add: parseQueries_def trim_empty_iff)
  moreover have "map content (parseQueries cfg now buf) = (if trim buf = [] then [] else [trim buf])"
    if "c \<notin> set buf"
    using that assms parseQueries_contents [of cfg now buf]
    by (simp add: split_js_def split_at_char_free)
  ultimately show ?thesis by blast
qed

text \<open>Claim C5, amended, at the buffer \<open>select 1\<close> and at a buffer of two spaces.\<close>

theorem parseQueries_blank_or_unseparated_witness:
  "querySeparator DEFAULT_CONFIG = [CHR '';'']
   \<and> parseQueries DEFAULT_CONFIG (constant_clock 17) ''  '' = []
   \<and> map content (parseQueries DEFAULT_CONFIG (constant_clock 17) ''select 1 '') = [''select 1'']"
proof -
  have h: "querySeparator DEFAULT_CONFIG = [CHR '';'']" by (simp add: DEFAULT_CONFIG_def)
  have b: "\<forall>ch\<in>set ''  ''. is_space ch" by (simp add: is_space_def)
  have n: "CHR '';'' \<notin> set ''select 1 ''" by simp
  have t: "trim ''select 1 '' = ''select 1''" by (simp add: trim_def is_space_def)
  show ?thesis
    using h parseQueries_blank_or_unseparated [OF h, of "''  ''" "constant_clock 17"] b
      parseQueries_blank_or_unseparated [OF h, of "''select 1 ''" "constant_clock 17"] n t
    by simp
qed

section \<open>The Joiner\<close>

lemma trim_if_empty: "(if t \<noteq> [] then trim t else []) = trim t"
  by (simp add: trim_Nil)

lemma map_index_zip:
  "map (\<lambda>(x, i). f x i) (zip xs [0..<length xs]) = map (\<lambda>i. f (xs ! i) i) [0..<length xs]"
  by (rule nth_equalityI) auto

lemma map_nth_upt: "map (\<lambda>i. f (xs ! i)) [0..<length xs] = map f xs"
  by (rule nth_equalityI) auto

lemma sync_cellContents:
  "map (\<lambda>(cell, index).
          (case cellEditors s index of
             Some ce \<Rightarrow>
               (case cell_getValue ce of
                  Some v \<Rightarrow> trim v
                | None \<Rightarrow> (if content cell \<noteq> [] then trim (content cell) else []))
           | None \<Rightarrow> (if content cell \<noteq> [] then trim (content cell) else [])))
       (zip (cells s) [0..<length (cells s)])
   = map (\<lambda>i. trim (registered_content s i)) [0..<length (cells s)]"
  unfolding map_index_zip
  by (rule map_cong) (auto simp: registered_content_def trim_Nil split: option.splits)

lemma normalize_newlines_cr_free:
  "CHR 0x0D \<notin> set t \<Longrightarrow> normalize_newlines t = t"
  by (induction t rule: normalize_newlines.induct) auto

lemma cr_notin_normalize_newlines: "CHR 0x0D \<notin> set (normalize_newlines t)"
  by (induction t rule: normalize_newlines.induct) auto

lemma normalize_newlines_idem:
  "normalize_newlines (normalize_newlines t) = normalize_newlines t"
  by (simp add: normalize_newlines_cr_free cr_notin_normalize_newlines)

lemma syncCellsToAceEditor_eq:
  assumes "aceEditor s = Some ed" "isNotebookMode s"
  shows "syncCellsToAceEditor s =
           (if ace_getValue ed \<noteq> joined_contents s
            then s\<lparr>aceEditor := Some (ace_setValue (joined_contents s) ed)\<rparr>
            else s)"
  unfolding syncCellsToAceEditor_def Let_def sync_cellContents
  using assms by (simp add: joined_contents_def)

lemma syncCellsToAceEditor_inactive:
  "aceEditor s = None \<or> \<not> isNotebookMode s \<Longrightarrow> syncCellsToAceEditor s = s"
  by (auto simp: syncCellsToAceEditor_def split: option.splits)

lemma current_buffer_sync:
  assumes "aceEditor s = Some ed" "isNotebookMode s"
  shows "current_buffer (syncCellsToAceEditor s) = Some (normalize_newlines (joined_contents s))"
proof (cases "ace_getValue ed = joined_contents s")
  case True
  have "normalize_newlines (joined_contents s) = joined_contents s"
    unfolding True [symmetric] ace_getValue_def by (rule normalize_newlines_idem)
  then show ?thesis
    using assms True by (simp add: syncCellsToAceEditor_eq current_buffer_def)
next
  case False
  then show ?thesis
    using assms
    by (simp add: syncCellsToAceEditor_eq current_buffer_def ace_setValue_def ace_getValue_def)
qed

lemma current_buffer_sync_cr_free:
  assumes "aceEditor s = Some ed" "isNotebookMode s" "CHR 0x0D \<notin> set (joined_contents s)"
  shows "current_buffer (syncCellsToAceEditor s) = Some (joined_contents s)"
  using current_buffer_sync [OF assms(1,2)] assms(3) by (simp add: normalize_newlines_cr_free)

lemma sync_preserves [simp]:
  "cells (syncCellsToAceEditor s) = cells s"
  "cellEditors (syncCellsToAceEditor s) = cellEditors s"
  "isNotebookMode (syncCellsToAceEditor s) = isNotebookMode s"
  "config (syncCellsToAceEditor s) = config s"
  "timeouts (syncCellsToAceEditor s) = timeouts s"
  "debounceTimer (syncCellsToAceEditor s) = debounceTimer s"
  "cellsContainer (syncCellsToAceEditor s) = cellsContainer s"
  by (auto simp: syncCellsToAceEditor_def Let_def split: option.splits)

lemma joined_contents_cong:
  "cells s' = cells s \<Longrightarrow> cellEditors s' = cellEditors s \<Longrightarrow> joined_contents s' = joined_contents s"
proof -
  assume a: "cells s' = cells s" "cellEditors s' = cellEditors s"
  have "registered_content s' i = registered_content s i" for i
    using a by (simp add: registered_content_def split: option.splits)
  then show ?thesis using a by (simp add: joined_contents_def)
qed

text \<open>
  When the recomputed text holds no carriage return, the editor returns it as it was written
  and a second pass finds nothing to write.
\<close>

lemma sync_idem_cr_free:
  assumes "CHR 0x0D \<notin> set (joined_contents s)"
  shows "syncCellsToAceEditor (syncCellsToAceEditor s) = syncCellsToAceEditor s"
proof (cases "aceEditor s = None \<or> \<not> isNotebookMode s")
  case True
  then show ?thesis by (simp add: syncCellsToAceEditor_inactive)
next
  case False
  then obtain ed where ed: "aceEditor s = Some ed" and nb: "isNotebookMode s" by auto
  let ?s1 = "syncCellsToAceEditor s"
  have b: "current_buffer ?s1 = Some (joined_contents s)"
    using ed nb assms by (rule current_buffer_sync_cr_free)
  then obtain ed1 where ed1: "aceEditor ?s1 = Some ed1" and b1: "ace_getValue ed1 = joined_contents s"
    by (auto simp: current_buffer_def)
  have j: "joined_contents ?s1 = joined_contents s" by (rule joined_contents_cong) simp_all
  show ?thesis
    using syncCellsToAceEditor_eq [OF ed1, unfolded j] nb b1 by simp
qed

lemma buffer_writes_sync: "buffer_writes (syncCellsToAceEditor s) \<le> buffer_writes s + 1"
proof (cases "aceEditor s = None \<or> \<not> isNotebookMode s")
  case True
  then show ?thesis by (simp add: syncCellsToAceEditor_inactive)
next
  case False
  then obtain ed where ed: "aceEditor s = Some ed" and nb: "isNotebookMode s" by auto
  show ?thesis
    using ed by (simp add: syncCellsToAceEditor_eq [OF ed nb] buffer_writes_def ace_setValue_def)
qed







lemma joined_contents_without_editors:
  assumes "\<forall>i<length (cells s). cellEditors s i = None"
  shows "joined_contents s =
           join_js [CHR '';'', CHR 0x0A, CHR 0x0A]
             (filter (\<lambda>t. t \<noteq> []) (map (\<lambda>c. trim (content c)) (cells s)))"
proof -
  have m: "map (\<lambda>i. trim (registered_content s i)) [0..<length (cells s)]
        = map (\<lambda>i. trim (content (cells s ! i))) [0..<length (cells s)]"
    using assms by (intro map_cong) (auto simp: registered_content_def)
  show ?thesis
    unfolding joined_contents_def m
    using map_nth_upt [of "\<lambda>c. trim (content c)" "cells s"] by simp
qed

lemma joined_contents_plain_notebook:
  "joined_contents (plain_notebook cs) =
     join_js [CHR '';'', CHR 0x0A, CHR 0x0A]
       (filter (\<lambda>t. t \<noteq> []) (map (\<lambda>p. trim (snd p)) cs))"
proof -
  have "\<forall>i<length (cells (plain_notebook cs)). cellEditors (plain_notebook cs) i = None"
    by (simp add: plain_notebook_def)
  then show ?thesis
    by (simp add: joined_contents_without_editors) (simp add: plain_notebook_def comp_def case_prod_beta)
qed

lemma plain_notebook_active:
  "aceEditor (plain_notebook cs) = Some \<lparr>buffer = [], setValue_calls = 0\<rparr>"
  "isNotebookMode (plain_notebook cs)"
  "config (plain_notebook cs) = DEFAULT_CONFIG"
  by (simp_all add: plain_notebook_def)

text \<open>
  Claim C4 fails on cells that hold CR LF, as the cells split from a buffer with such line
  breaks do. The Joiner compares the text it recomputed, which holds the CR, with what the
  editor returns, which never does. The two differ on every pass, so the second pass of two in
  a row writes the buffer again: two writes, where the claim allows one. The buffer reads the
  same after both passes.
\<close>

theorem syncCellsToAceEditor_rewrites_crlf:
  "buffer_writes (plain_notebook [(''a'', [CHR ''a'', CHR 0x0D, CHR 0x0A, CHR ''b'']), (''b'', ''c'')]) = 0
   \<and> buffer_writes (syncCellsToAceEditor
        (plain_notebook [(''a'', [CHR ''a'', CHR 0x0D, CHR 0x0A, CHR ''b'']), (''b'', ''c'')])) = 1
   \<and> buffer_writes (syncCellsToAceEditor (syncCellsToAceEditor
        (plain_notebook [(''a'', [CHR ''a'', CHR 0x0D, CHR 0x0A, CHR ''b'']), (''b'', ''c'')]))) = 2
   \<and> current_buffer (syncCellsToAceEditor
        (plain_notebook [(''a'', [CHR ''a'', CHR 0x0D, CHR 0x0A, CHR ''b'']), (''b'', ''c'')]))
       = Some [CHR ''a'', CHR 0x0A, CHR ''b'', CHR '';'', CHR 0x0A, CHR 0x0A, CHR ''c'']
   \<and> current_buffer (syncCellsToAceEditor (syncCellsToAceEditor
        (plain_notebook [(''a'', [CHR ''a'', CHR 0x0D, CHR 0x0A, CHR ''b'']), (''b'', ''c'')])))
       = Some [CHR ''a'', CHR 0x0A, CHR ''b'', CHR '';'', CHR 0x0A, CHR 0x0A, CHR ''c'']"
proof -
  define s0 where "s0 = plain_notebook [(''a'', [CHR ''a'', CHR 0x0D, CHR 0x0A, CHR ''b'']), (''b'', ''c'')]"
  define J where "J = [CHR ''a'', CHR 0x0D, CHR 0x0A, CHR ''b'', CHR '';'', CHR 0x0A, CHR 0x0A, CHR ''c'']"
  define N where "N = [CHR ''a'', CHR 0x0A, CHR ''b'', CHR '';'', CHR 0x0A, CHR 0x0A, CHR ''c'']"
  define ed0 where "ed0 = \<lparr>buffer = [], setValue_calls = 0\<rparr>"
  have nJ: "normalize_newlines J = N" by (simp add: J_def N_def)
  have ne: "N \<noteq> J" "[] \<noteq> J" by (simp_all add: J_def N_def)
  have a0: "aceEditor s0 = Some ed0" "isNotebookMode s0"
    by (simp_all add: s0_def ed0_def plain_notebook_active)
  have j0: "joined_contents s0 = J"
    unfolding s0_def J_def by (simp add: joined_contents_plain_notebook trim_def is_space_def)
  have g0: "ace_getValue ed0 = []" by (simp add: ace_getValue_def ed0_def)
  define s1 where "s1 = s0\<lparr>aceEditor := Some (ace_setValue J ed0)\<rparr>"
  have 1: "syncCellsToAceEditor s0 = s1"
    using syncCellsToAceEditor_eq [OF a0] ne(2) by (simp add: j0 g0 s1_def)
  have a1: "aceEditor s1 = Some (ace_setValue J ed0)" "isNotebookMode s1"
    using a0 by (simp_all add: s1_def)
  have j1: "joined_contents s1 = J"
    using joined_contents_cong [of s1 s0] j0 by (simp add: s1_def)
  have g1: "ace_getValue (ace_setValue J ed0) = N"
    by (simp add: ace_getValue_def ace_setValue_def nJ)
  have 2: "syncCellsToAceEditor s1 = s1\<lparr>aceEditor := Some (ace_setValue J (ace_setValue J ed0))\<rparr>"
    using syncCellsToAceEditor_eq [OF a1] ne(1) by (simp add: j1 g1)
  have w0: "buffer_writes s0 = 0" using a0 by (simp add: buffer_writes_def ed0_def)
  have w1: "buffer_writes (syncCellsToAceEditor s0) = 1"
    unfolding 1 by (simp add: s1_def buffer_writes_def ace_setValue_def ed0_def)
  have w2: "buffer_writes (syncCellsToAceEditor (syncCellsToAceEditor s0)) = 2"
    unfolding 1 2 by (simp add: buffer_writes_def ace_setValue_def ed0_def)
  have b1: "current_buffer (syncCellsToAceEditor s0) = Some N"
    unfolding 1 using g1 by (simp add: s1_def current_buffer_def)
  have b2: "current_buffer (syncCellsToAceEditor (syncCellsToAceEditor s0)) = Some N"
    unfolding 1 2 by (simp add: current_buffer_def ace_getValue_def ace_setValue_def nJ)
  show ?thesis
    using w0 w1 w2 b1 b2 unfolding s0_def N_def by blast
qed




section \<open>Rendering, copying and deleting cells\<close>

lemma renderCells_nonempty:
  "cells s \<noteq> [] \<Longrightarrow>
   renderCells now s =
     s\<lparr>cellsContainer := map (\<lambda>(cell, index). (index, cell)) (zip (cells s) [0..<length (cells s)]),
       timeouts := timeouts s @
                   map (\<lambda>(cell, index). (0, CreateCellAceEditor cell index))
                       (zip (cells s) [0..<length (cells s)])\<rparr>"
  by (simp add: renderCells.simps [of now s] Let_def)

lemma focus_requests_append:
  "focus_requests (s\<lparr>timeouts := timeouts s @ xs\<rparr>) =
     focus_requests s @ concat (map focus_target xs)"
  by (simp add: focus_requests_def)

lemma focus_target_create:
  "concat (map focus_target (map (\<lambda>(cell, index). (0, CreateCellAceEditor cell index)) xs)) = []"
  by (induction xs) auto

lemma focus_requests_sync [simp]:
  "focus_requests (syncCellsToAceEditor s) = focus_requests s"
  by (simp add: focus_requests_def)

lemma focus_requests_cong:
  "timeouts s' = timeouts s \<Longrightarrow> focus_requests s' = focus_requests s"
  by (simp add: focus_requests_def)

lemma cells_addNewCell_None:
  "cells (addNewCell now None s) = cells s @ [\<lparr>cell_id = ''cell_'' @ number_to_string now, content = []\<rparr>]"
  by (simp add: addNewCell.simps [of now None s] Let_def renderCells_nonempty)

lemma focus_requests_renderCells_nonempty:
  "cells s \<noteq> [] \<Longrightarrow> focus_requests (renderCells now s) = focus_requests s"
  by (auto simp: renderCells_nonempty focus_requests_def)

lemma focus_requests_addNewCell:
  "focus_requests (addNewCell now position s) = focus_requests s"
proof -
  define s1 where "s1 = (case position of
                  Some p \<Rightarrow>
                    if p \<ge> 0 \<and> p < int (length (cells s))
                    then s\<lparr>cells := take (nat p) (cells s) @ [\<lparr>cell_id = ''cell_'' @ number_to_string now, content = []\<rparr>] @ drop (nat p) (cells s)\<rparr>
                    else s\<lparr>cells := cells s @ [\<lparr>cell_id = ''cell_'' @ number_to_string now, content = []\<rparr>]\<rparr>
                | None \<Rightarrow> s\<lparr>cells := cells s @ [\<lparr>cell_id = ''cell_'' @ number_to_string now, content = []\<rparr>]\<rparr>)"
  have ne: "cells s1 \<noteq> []" by (auto simp: s1_def split: option.splits)
  have t: "timeouts s1 = timeouts s" by (auto simp: s1_def split: option.splits)
  have a: "addNewCell now position s =
             (syncCellsToAceEditor (renderCells now s1))
               \<lparr>timeouts := timeouts (syncCellsToAceEditor (renderCells now s1)) @
                            [(100, FocusNewCell position)]\<rparr>"
    unfolding addNewCell.simps [of now position s] Let_def s1_def ..
  have "focus_requests (renderCells now s1) = focus_requests s"
    using focus_requests_renderCells_nonempty [OF ne, of now] focus_requests_cong [OF t] by simp
  then show ?thesis
    unfolding a focus_requests_append by simp
qed

lemma cells_renderCells:
  "cells (renderCells now s) =
     (if cells s = [] then [\<lparr>cell_id = ''cell_'' @ number_to_string now, content = []\<rparr>]
      else cells s)"
proof (cases "cells s = []")
  case True
  then show ?thesis
    by (simp add: renderCells.simps [of now s] Let_def cells_addNewCell_None)
next
  case False
  then show ?thesis by (simp add: renderCells_nonempty)
qed

lemma focus_requests_renderCells:
  "focus_requests (renderCells now s) = focus_requests s"
proof (cases "cells s = []")
  case True
  then show ?thesis
    using focus_requests_addNewCell [of now None]
    by (simp add: renderCells.simps [of now s] Let_def focus_requests_def)
next
  case False
  then show ?thesis
    by (simp add: focus_requests_renderCells_nonempty)
qed

lemma deleteCell_in_bounds:
  assumes "0 \<le> index" "index < int (length (cells s))"
  shows "cells (deleteCell now index s) =
           (if length (cells s) = 1
            then [\<lparr>cell_id = ''cell_'' @ number_to_string now, content = []\<rparr>]
            else take (nat index) (cells s) @ drop (nat index + 1) (cells s))"
    and "focus_requests (deleteCell now index s) =
           (if length (cells s) > 1
            then focus_requests s @ [if index > 0 then index - 1 else 0]
            else focus_requests s)"
proof -
  define s1 where "s1 = (case cellEditors s (nat index) of
                     Some ce \<Rightarrow>
                       if destroy_throws ce then s
                       else s\<lparr>cellEditors := (cellEditors s)(nat index := None)\<rparr>
                   | None \<Rightarrow> s)"
  have s1 [simp]: "cells s1 = cells s" "timeouts s1 = timeouts s"
    by (auto simp: s1_def split: option.splits)
  let ?s1 = "s1"
  let ?s2 = "?s1\<lparr>cells := take (nat index) (cells ?s1) @ drop (nat index + 1) (cells ?s1)\<rparr>"
  let ?s4 = "syncCellsToAceEditor (renderCells now ?s2)"
  let ?focusIndex = "if length (cells s1) > 1 then (if index > 0 then index - 1 else 0) else - 1"
  have "deleteCell now index s =
             (if ?focusIndex \<ge> 0 \<and> length (cells ?s4) > 0
              then ?s4\<lparr>timeouts := timeouts ?s4 @ [(100, FocusCell ?focusIndex)]\<rparr>
              else ?s4)"
    unfolding deleteCell_def Let_def s1_def using assms by (simp only: simp_thms if_True)
  then have d: "deleteCell now index s =
             (if length (cells s) > 1
              then ?s4\<lparr>timeouts := timeouts ?s4 @ [(100, FocusCell (if index > 0 then index - 1 else 0))]\<rparr>
              else ?s4)"
    by (simp add: cells_renderCells)
  have c2: "cells ?s2 = take (nat index) (cells s) @ drop (nat index + 1) (cells s)" by simp
  have e: "cells ?s2 = [] \<longleftrightarrow> length (cells s) = 1"
    using assms by (cases "cells s") (auto simp: c2)
  have c4: "cells ?s4 = (if length (cells s) = 1
            then [\<lparr>cell_id = ''cell_'' @ number_to_string now, content = []\<rparr>]
            else take (nat index) (cells s) @ drop (nat index + 1) (cells s))"
    using e by (simp add: cells_renderCells)
  have ne: "length (cells ?s4) > 0"
    by (simp add: cells_renderCells)
  have f4: "focus_requests ?s4 = focus_requests s"
    using focus_requests_renderCells [of now ?s2] focus_requests_cong [of ?s2 s] by simp
  show "cells (deleteCell now index s) =
           (if length (cells s) = 1
            then [\<lparr>cell_id = ''cell_'' @ number_to_string now, content = []\<rparr>]
            else take (nat index) (cells s) @ drop (nat index + 1) (cells s))"
  proof -
    have "cells (deleteCell now index s) = cells ?s4" unfolding d by simp
    then show ?thesis using c4 by (rule trans)
  qed
  show "focus_requests (deleteCell now index s) =
           (if length (cells s) > 1
            then focus_requests s @ [if index > 0 then index - 1 else 0]
            else focus_requests s)"
  proof -
    have "focus_requests (deleteCell now index s) =
           (if length (cells s) > 1
            then focus_requests ?s4 @ [if index > 0 then index - 1 else 0]
            else focus_requests ?s4)"
      unfolding d by (simp add: focus_requests_def)
    then show ?thesis unfolding f4 .
  qed
qed

lemma focus_requests_plain_notebook: "focus_requests (plain_notebook cs) = []"
  by (simp add: focus_requests_def plain_notebook_def)

lemma cells_plain_notebook:
  "cells (plain_notebook cs) = map (\<lambda>(i, c). \<lparr>cell_id = i, content = c\<rparr>) cs"
  by (simp add: plain_notebook_def)

text \<open>
  Claim C6. Deleting the cell at an index within bounds: when there is more than one cell, a
  focus callback is registered for \<open>index - 1\<close>, or for \<open>0\<close> when \<open>index\<close> is \<open>0\<close>, and the
  cells are the old ones without the deleted one; when there is exactly one cell, no focus
  callback is registered by the deletion (the cell that the render pass then adds asks for focus
  through the callback of \<open>addNewCell\<close>, which is not a \<open>focusCell\<close> request). With three
  cells, deleting index 0 asks for focus on index 0, where the former cell 1 now is, and
  deleting index 2 asks for focus on index 1.
\<close>

theorem deleteCell_focus_target:
  assumes "0 \<le> index" and "index < int (length (cells s))"
  shows "(length (cells s) > 1 \<longrightarrow>
            focus_requests (deleteCell now index s) =
              focus_requests s @ [if index > 0 then index - 1 else 0]
          \<and> cells (deleteCell now index s) =
              take (nat index) (cells s) @ drop (nat index + 1) (cells s))
       \<and> (length (cells s) = 1 \<longrightarrow>
            focus_requests (deleteCell now index s) = focus_requests s)
       \<and> (length (cells s) = 3 \<longrightarrow>
            focus_requests (deleteCell now 0 s) = focus_requests s @ [0]
          \<and> cells (deleteCell now 0 s) ! 0 = cells s ! 1
          \<and> focus_requests (deleteCell now 2 s) = focus_requests s @ [1])"
proof -
  have a: "length (cells s) > 1 \<longrightarrow>
            focus_requests (deleteCell now index s) =
              focus_requests s @ [if index > 0 then index - 1 else 0]
          \<and> cells (deleteCell now index s) =
              take (nat index) (cells s) @ drop (nat index + 1) (cells s)"
    using deleteCell_in_bounds [OF assms, of now] by simp
  have b: "length (cells s) = 1 \<longrightarrow>
            focus_requests (deleteCell now index s) = focus_requests s"
    using deleteCell_in_bounds(2) [OF assms, of now] by simp
  have c: "focus_requests (deleteCell now 0 s) = focus_requests s @ [0]
          \<and> cells (deleteCell now 0 s) ! 0 = cells s ! 1
          \<and> focus_requests (deleteCell now 2 s) = focus_requests s @ [1]"
    if l: "length (cells s) = 3"
  proof -
    have 0: "(0::int) \<le> 0" "(0::int) < int (length (cells s))" using l by simp_all
    have 2: "(0::int) \<le> 2" "(2::int) < int (length (cells s))" using l by simp_all
    have "cells (deleteCell now 0 s) = drop 1 (cells s)"
      using deleteCell_in_bounds(1) [OF 0, of now] l by simp
    then have "cells (deleteCell now 0 s) ! 0 = cells s ! 1"
      using l by (simp add: nth_drop)
    then show ?thesis
      using deleteCell_in_bounds(2) [OF 0, of now] deleteCell_in_bounds(2) [OF 2, of now] l
      by simp
  qed
  show ?thesis using a b c by blast
qed

text \<open>Claim C6 on three cells, deleting the last and the first, and on a single cell.\<close>

theorem deleteCell_focus_target_witness:
  "(0::int) \<le> 2
   \<and> (2::int) < int (length (cells (plain_notebook [(''a'', ''q0''), (''b'', ''q1''), (''c'', ''q2'')])))
   \<and> length (cells (plain_notebook [(''a'', ''q0''), (''b'', ''q1''), (''c'', ''q2'')])) = 3
   \<and> focus_requests (deleteCell 17 2 (plain_notebook [(''a'', ''q0''), (''b'', ''q1''), (''c'', ''q2'')])) = [1]
   \<and> focus_requests (deleteCell 17 0 (plain_notebook [(''a'', ''q0''), (''b'', ''q1''), (''c'', ''q2'')])) = [0]
   \<and> cells (deleteCell 17 0 (plain_notebook [(''a'', ''q0''), (''b'', ''q1''), (''c'', ''q2'')])) ! 0
       = \<lparr>cell_id = ''b'', content = ''q1''\<rparr>
   \<and> (0::int) < int (length (cells (plain_notebook [(''a'', ''q0'')])))
   \<and> length (cells (plain_notebook [(''a'', ''q0'')])) = 1
   \<and> focus_requests (deleteCell 17 0 (plain_notebook [(''a'', ''q0'')])) = []"
proof -
  let ?s = "plain_notebook [(''a'', ''q0''), (''b'', ''q1''), (''c'', ''q2'')]"
  let ?t = "plain_notebook [(''a'', ''q0'')]"
  have l: "length (cells ?s) = 3" by (simp add: cells_plain_notebook)
  have h: "(0::int) \<le> 2" "(2::int) < int (length (cells ?s))" using l by simp_all
  have lt: "length (cells ?t) = 1" by (simp add: cells_plain_notebook)
  have ht: "(0::int) \<le> 0" "(0::int) < int (length (cells ?t))" using lt by simp_all
  have c1: "cells ?s ! 1 = \<lparr>cell_id = ''b'', content = ''q1''\<rparr>" by (simp add: cells_plain_notebook)
  note t = deleteCell_focus_target [OF h, of 17]
  note u = deleteCell_focus_target [OF ht, of 17]
  from t l have "focus_requests (deleteCell 17 2 ?s) = focus_requests ?s @ [1]"
    "focus_requests (deleteCell 17 0 ?s) = focus_requests ?s @ [0]"
    "cells (deleteCell 17 0 ?s) ! 0 = cells ?s ! 1" by blast+
  moreover from u lt have "focus_requests (deleteCell 17 0 ?t) = focus_requests ?t" by blast
  ultimately show ?thesis
    using h ht l lt c1 by (simp add: focus_requests_plain_notebook)
qed

text \<open>
  Claim C7. For an index that is negative or not below the number of cells, \<open>copyCell\<close> and
  \<open>deleteCell\<close> return the state they were given: the cells and the buffer are unchanged.
\<close>

theorem copyCell_deleteCell_out_of_bounds:
  assumes "index < 0 \<or> index \<ge> int (length (cells s))"
  shows "copyCell now index s = s \<and> deleteCell now index s = s
       \<and> cells (copyCell now index s) = cells s
       \<and> current_buffer (copyCell now index s) = current_buffer s
       \<and> cells (deleteCell now index s) = cells s
       \<and> current_buffer (deleteCell now index s) = current_buffer s"
proof -
  have "copyCell now index s = s" using assms by (simp add: copyCell_def)
  moreover have "deleteCell now index s = s" using assms by (auto simp: deleteCell_def)
  ultimately show ?thesis by simp
qed

text \<open>Claim C7 on a single cell, at the indices 1 and -1.\<close>

theorem copyCell_deleteCell_out_of_bounds_witness:
  "((1::int) < 0 \<or> (1::int) \<ge> int (length (cells (plain_notebook [(''a'', ''q0'')]))))
   \<and> copyCell 17 1 (plain_notebook [(''a'', ''q0'')]) = plain_notebook [(''a'', ''q0'')]
   \<and> deleteCell 17 1 (plain_notebook [(''a'', ''q0'')]) = plain_notebook [(''a'', ''q0'')]
   \<and> ((- 1::int) < 0 \<or> (- 1::int) \<ge> int (length (cells (plain_notebook [(''a'', ''q0'')]))))
   \<and> copyCell 17 (- 1) (plain_notebook [(''a'', ''q0'')]) = plain_notebook [(''a'', ''q0'')]
   \<and> deleteCell 17 (- 1) (plain_notebook [(''a'', ''q0'')]) = plain_notebook [(''a'', ''q0'')]"
proof -
  let ?t = "plain_notebook [(''a'', ''q0'')]"
  have a: "(1::int) < 0 \<or> (1::int) \<ge> int (length (cells ?t))" by (simp add: cells_plain_notebook)
  have b: "(- 1::int) < 0 \<or> (- 1::int) \<ge> int (length (cells ?t))" by simp
  show ?thesis
    using a b copyCell_deleteCell_out_of_bounds [OF a, of 17]
      copyCell_deleteCell_out_of_bounds [OF b, of 17] by blast
qed

text \<open>
  Claim C10. After a render pass the cell sequence is not empty: an empty sequence gets exactly
  one new cell with empty content, a sequence with cells is left as it is. Deleting the only
  cell therefore leaves one cell, the new one with empty content.
\<close>

theorem renderCells_leaves_a_cell:
  "cells (renderCells now s) \<noteq> []
   \<and> (cells s = [] \<longrightarrow>
        cells (renderCells now s) = [\<lparr>cell_id = ''cell_'' @ number_to_string now, content = []\<rparr>])
   \<and> (cells s \<noteq> [] \<longrightarrow> cells (renderCells now s) = cells s)
   \<and> (length (cells s) = 1 \<longrightarrow>
        cells (deleteCell now 0 s) = [\<lparr>cell_id = ''cell_'' @ number_to_string now, content = []\<rparr>])"
proof -
  have "cells (deleteCell now 0 s) = [\<lparr>cell_id = ''cell_'' @ number_to_string now, content = []\<rparr>]"
    if l: "length (cells s) = 1"
  proof -
    have h: "(0::int) \<le> 0" "(0::int) < int (length (cells s))" using l by simp_all
    show ?thesis using deleteCell_in_bounds(1) [OF h, of now] l by simp
  qed
  then show ?thesis by (simp add: cells_renderCells)
qed

text \<open>Claim C10 on the empty notebook and on a notebook with one cell.\<close>

theorem renderCells_leaves_a_cell_witness:
  "cells (plain_notebook []) = []
   \<and> cells (renderCells 17 (plain_notebook [])) = [\<lparr>cell_id = ''cell_17'', content = []\<rparr>]
   \<and> length (cells (plain_notebook [(''a'', ''q0'')])) = 1
   \<and> cells (deleteCell 17 0 (plain_notebook [(''a'', ''q0'')])) = [\<lparr>cell_id = ''cell_17'', content = []\<rparr>]
   \<and> cells (plain_notebook [(''a'', ''q0'')]) \<noteq> []
   \<and> cells (renderCells 17 (plain_notebook [(''a'', ''q0'')])) = [\<lparr>cell_id = ''a'', content = ''q0''\<rparr>]"
proof -
  have n: "number_to_string 17 = ''17''"
    by (simp add: number_to_string_eval digit_char_eval)
  have a: "cells (plain_notebook []) = []" by (simp add: cells_plain_notebook)
  have b: "length (cells (plain_notebook [(''a'', ''q0'')])) = 1" by (simp add: cells_plain_notebook)
  have c: "cells (plain_notebook [(''a'', ''q0'')]) = [\<lparr>cell_id = ''a'', content = ''q0''\<rparr>]"
    by (simp add: cells_plain_notebook)
  show ?thesis
    using renderCells_leaves_a_cell [of 17 "plain_notebook []"]
      renderCells_leaves_a_cell [of 17 "plain_notebook [(''a'', ''q0'')]"] a b c n
    by simp
qed

section \<open>The debounce timer\<close>

lemma debouncedUpdateCell_overrides:
  "debouncedUpdateCell j c2 (debouncedUpdateCell i c1 s) = debouncedUpdateCell j c2 s"
  by (simp add: debouncedUpdateCell_def)

lemma debounce_expires_after_edit:
  "debounce_expires (debouncedUpdateCell j c2 s) = updateCellContent j c2 (s\<lparr>debounceTimer := None\<rparr>)"
  by (simp add: debounce_expires_def debouncedUpdateCell_def)

text \<open>
  Claim C8, amended. There is one pending-sync timer for the whole notebook. An edit on any
  cell replaces the pending callback by its own, whatever cell the pending one was for, so two
  edits in a row leave the state that the second alone would leave. When the timer expires, only
  that last edit reaches \<open>updateCellContent\<close>, and nothing stays pending.
\<close>

theorem debounce_last_edit_wins:
  "debounceTimer (debouncedUpdateCell j c2 (debouncedUpdateCell i c1 s)) =
     Some (debounceDelay (config s), j, c2)
   \<and> debouncedUpdateCell j c2 (debouncedUpdateCell i c1 s) = debouncedUpdateCell j c2 s
   \<and> debounce_expires (debouncedUpdateCell j c2 (debouncedUpdateCell i c1 s)) =
       updateCellContent j c2 (s\<lparr>debounceTimer := None\<rparr>)
   \<and> debounceTimer (debounce_expires (debouncedUpdateCell j c2 (debouncedUpdateCell i c1 s))) = None"
proof -
  have "debounceTimer (updateCellContent j c2 (s\<lparr>debounceTimer := None\<rparr>)) = None"
    by (simp add: updateCellContent_def)
  then show ?thesis
    by (simp add: debouncedUpdateCell_overrides debounce_expires_after_edit)
       (simp add: debouncedUpdateCell_def)
qed

text \<open>
  Claim C8 as stated fails. Two cells without sub-widgets hold \<open>q0\<close> and \<open>q1\<close>. An edit of
  cell 0 to \<open>x\<close> is pending when an edit of cell 1 to \<open>y\<close> arrives: the pending callback is
  now the one for cell 1, and when the timer expires cell 0 still holds \<open>q0\<close>. The edit of
  cell 0 was discarded by the edit of the other cell.
\<close>

theorem debounce_other_cell_counterexample:
  "debounceTimer (debouncedUpdateCell 0 ''x'' (plain_notebook [(''a'', ''q0''), (''b'', ''q1'')]))
     = Some (300, 0, ''x'')
   \<and> debounceTimer (debouncedUpdateCell 1 ''y''
        (debouncedUpdateCell 0 ''x'' (plain_notebook [(''a'', ''q0''), (''b'', ''q1'')])))
     = Some (300, 1, ''y'')
   \<and> map content (cells (debounce_expires (debouncedUpdateCell 1 ''y''
        (debouncedUpdateCell 0 ''x'' (plain_notebook [(''a'', ''q0''), (''b'', ''q1'')])))))
     = [''q0'', ''y'']
   \<and> debounceTimer (debounce_expires (debouncedUpdateCell 1 ''y''
        (debouncedUpdateCell 0 ''x'' (plain_notebook [(''a'', ''q0''), (''b'', ''q1'')]))))
     = None"
  by (simp add: debouncedUpdateCell_def debounce_expires_def updateCellContent_def
      plain_notebook_def DEFAULT_CONFIG_def)

section \<open>The comment toggle on one line\<close>

lemma rtrim_append_nonspace:
  "\<not> is_space x \<Longrightarrow>
   rev (dropWhile is_space (rev (xs @ x # ys))) = xs @ x # rev (dropWhile is_space (rev ys))"
  by (simp add: dropWhile_append)

lemma rtrim_prefix: "prefix (rev (dropWhile is_space (rev u))) u"
proof -
  have "u = rev (takeWhile is_space (rev u) @ dropWhile is_space (rev u))" by simp
  then have "u = rev (dropWhile is_space (rev u)) @ rev (takeWhile is_space (rev u))"
    by (simp only: rev_append)
  then show ?thesis by (metis prefixI)
qed

lemma trim_prefix_rest: "prefix (trim line) (dropWhile is_space line)"
  unfolding trim_def by (rule rtrim_prefix)

lemma not_space_dash: "\<not> is_space CHR ''-''"
  by (simp add: is_space_def)

lemma is_space_blank: "is_space CHR '' ''"
  by (simp add: is_space_def)

lemma takeWhile_space_append:
  "\<forall>c\<in>set ws. is_space c \<Longrightarrow> r \<noteq> [] \<Longrightarrow> \<not> is_space (hd r) \<Longrightarrow>
   takeWhile is_space (ws @ r) = ws \<and> dropWhile is_space (ws @ r) = r"
  by (cases r) (auto simp: takeWhile_append dropWhile_append)

lemma split_single_line:
  "CHR 0x0A \<notin> set line \<Longrightarrow> split_js [CHR 0x0A] line = [line]"
  by (simp add: split_js_def split_at_char_free)

lemma find_start_single:
  "(case find_start_line [l] start 0 0 of Some i \<Rightarrow> i | None \<Rightarrow> 0) = 0"
  by (simp add: Let_def)

lemma find_end_single:
  "(case find_end_line [l] end' 0 0 of Some i \<Rightarrow> i | None \<Rightarrow> 0) = 0"
  by (simp add: Let_def)

lemma toggle_single_line:
  assumes "CHR 0x0A \<notin> set (ta_value ta)"
  shows "ta_value (fst (toggleSQLComment ta s)) =
           (if trim (ta_value ta) = [] then ta_value ta
            else if prefix ''--'' (trim (ta_value ta)) then remove_comment (ta_value ta)
            else add_comment (ta_value ta))"
proof -
  have sp: "split_js [CHR 0x0A] (ta_value ta) = [ta_value ta]"
    using assms by (rule split_single_line)
  have u: "[0..<Suc 0] = [0]" by simp
  show ?thesis
    unfolding toggleSQLComment_def Let_def sp find_start_single find_end_single if_cancel u
    by simp
qed


lemma add_comment_line:
  assumes "\<forall>c\<in>set line. \<not> is_line_terminator c"
  shows "add_comment line = takeWhile is_space line @ ''-- '' @ dropWhile is_space line"
proof -
  have "\<forall>c\<in>set (dropWhile is_space line). \<not> is_line_terminator c"
    using assms by (auto dest: set_dropWhileD)
  then have "takeWhile (\<lambda>c. \<not> is_line_terminator c) (dropWhile is_space line) = dropWhile is_space line"
    by (simp add: takeWhile_eq_all_conv)
  then show ?thesis by (simp add: add_comment_def)
qed

lemma remove_comment_line:
  assumes "\<forall>c\<in>set ws. is_space c"
  shows "remove_comment (ws @ ''-- '' @ r) = ws @ r"
proof -
  have "takeWhile is_space (ws @ ''-- '' @ r) = ws \<and> dropWhile is_space (ws @ ''-- '' @ r) = ''-- '' @ r"
    using assms by (intro takeWhile_space_append) (simp_all add: not_space_dash)
  then show ?thesis by (simp add: remove_comment_def is_space_blank)
qed

lemma trim_commented:
  assumes "\<forall>c\<in>set ws. is_space c"
  shows "trim (ws @ ''--'' @ r) \<noteq> [] \<and> prefix ''--'' (trim (ws @ ''--'' @ r))"
proof -
  have "trim (ws @ ''--'' @ r) = trim (''--'' @ r)" using assms by (rule trim_space_prefix)
  also have "\<dots> = rev (dropWhile is_space (rev (''-'' @ CHR ''-'' # r)))"
    by (simp add: trim_def not_space_dash)
  also have "\<dots> = ''-'' @ CHR ''-'' # rev (dropWhile is_space (rev r))"
    using not_space_dash by (rule rtrim_append_nonspace)
  finally show ?thesis by simp
qed

lemma line_decomposition:
  "line = takeWhile is_space line @ dropWhile is_space line"
  "\<forall>c\<in>set (takeWhile is_space line). is_space c"
  by (simp, auto dest: set_takeWhileD)

lemma uncommented_not_prefix:
  "\<not> prefix ''--'' (dropWhile is_space line) \<Longrightarrow> \<not> prefix ''--'' (trim line)"
proof
  assume "\<not> prefix ''--'' (dropWhile is_space line)" and "prefix ''--'' (trim line)"
  then show False using trim_prefix_rest [of line] prefix_order.trans by blast
qed

lemma toggle_twice_uncommented:
  assumes lt: "\<forall>c\<in>set line. \<not> is_line_terminator c"
    and u: "\<not> prefix ''--'' (dropWhile is_space line)"
    and v1: "ta_value ta = line"
  shows "ta_value (fst (toggleSQLComment (fst (toggleSQLComment ta s)) s')) = line"
proof -
  let ?ws = "takeWhile is_space line"
  let ?rest = "dropWhile is_space line"
  have nl: "CHR 0x0A \<notin> set line" using lt by (auto simp: is_line_terminator_def)
  show ?thesis
  proof (cases "trim line = []")
    case True
    have 1: "ta_value (fst (toggleSQLComment ta s)) = line"
      using toggle_single_line [of ta s] nl v1 True by simp
    show ?thesis
      using toggle_single_line [of "fst (toggleSQLComment ta s)" s'] nl 1 True by simp
  next
    case False
    let ?line2 = "?ws @ ''-- '' @ ?rest"
    have 1: "ta_value (fst (toggleSQLComment ta s)) = ?line2"
      using toggle_single_line [of ta s] nl v1 False uncommented_not_prefix [OF u]
        add_comment_line [OF lt] by simp
    have nl2: "CHR 0x0A \<notin> set ?line2"
    proof -
      have "set ?line2 \<subseteq> set line \<union> set ''-- ''"
        using set_takeWhileD [of _ is_space line] set_dropWhileD [of _ is_space line] by auto
      then show ?thesis using nl by auto
    qed
    have c: "trim ?line2 \<noteq> [] \<and> prefix ''--'' (trim ?line2)"
      using trim_commented [OF line_decomposition(2), of line "'' '' @ ?rest"] by simp
    have "ta_value (fst (toggleSQLComment (fst (toggleSQLComment ta s)) s')) = remove_comment ?line2"
      using toggle_single_line [of "fst (toggleSQLComment ta s)" s'] nl2 c unfolding 1 by simp
    also have "\<dots> = ?ws @ ?rest" using line_decomposition(2) by (rule remove_comment_line)
    finally show ?thesis by simp
  qed
qed

lemma toggle_twice_commented:
  assumes lt: "\<forall>c\<in>set line. \<not> is_line_terminator c"
    and d: "dropWhile is_space line = ''-- '' @ r" "r \<noteq> []" "\<not> is_space (hd r)" "\<not> prefix ''--'' r"
    and v1: "ta_value ta = line"
  shows "ta_value (fst (toggleSQLComment (fst (toggleSQLComment ta s)) s')) = line"
proof -
  define ws where "ws = takeWhile is_space line"
  have nl: "CHR 0x0A \<notin> set line" using lt by (auto simp: is_line_terminator_def)
  have line: "line = ws @ ''-- '' @ r"
    unfolding ws_def d(1) [symmetric] by simp
  have ws: "\<forall>c\<in>set ws. is_space c" unfolding ws_def by (rule line_decomposition(2))
  have c: "trim line \<noteq> [] \<and> prefix ''--'' (trim line)"
    unfolding line using trim_commented [OF ws, of "'' '' @ r"] by simp
  let ?line1 = "ws @ r"
  have "remove_comment line = ?line1"
    unfolding line using ws by (rule remove_comment_line)
  then have 1: "ta_value (fst (toggleSQLComment ta s)) = ?line1"
    using toggle_single_line [of ta s] nl v1 c by simp
  have sub: "set ?line1 \<subseteq> set line" unfolding line by auto
  have lt1: "\<forall>c\<in>set ?line1. \<not> is_line_terminator c" using lt sub by blast
  have nl1: "CHR 0x0A \<notin> set ?line1" using nl sub by blast
  have td: "takeWhile is_space ?line1 = ws \<and> dropWhile is_space ?line1 = r"
    using ws d(2,3) by (rule takeWhile_space_append)
  have t1: "trim ?line1 \<noteq> []"
  proof -
    have "hd r \<in> set ?line1" using d(2) by simp
    then show ?thesis using d(3) trim_empty_iff [of ?line1] by blast
  qed
  have np: "\<not> prefix ''--'' (trim ?line1)"
    using uncommented_not_prefix [of ?line1] td d(4) by simp
  have "ta_value (fst (toggleSQLComment (fst (toggleSQLComment ta s)) s')) = add_comment ?line1"
    using toggle_single_line [of "fst (toggleSQLComment ta s)" s'] nl1 t1 np unfolding 1 by simp
  also have "\<dots> = ws @ ''-- '' @ r"
    using add_comment_line [OF lt1] td by simp
  finally show ?thesis unfolding line .
qed

text \<open>
  Claim C9, amended. Let the text of the box be one line without line terminators. If its first
  characters after the leading white space are not \<open>--\<close> (a blank line included), or if they
  are \<open>--\<close> followed by exactly one space and then by text that begins with neither white
  space nor \<open>--\<close>, then toggling the comment twice gives the original text back.
\<close>

theorem toggleSQLComment_twice_restores:
  assumes "\<forall>c\<in>set (ta_value ta). \<not> is_line_terminator c"
    and "\<not> prefix ''--'' (dropWhile is_space (ta_value ta))
         \<or> (\<exists>r. dropWhile is_space (ta_value ta) = ''-- '' @ r \<and> r \<noteq> []
                  \<and> \<not> is_space (hd r) \<and> \<not> prefix ''--'' r)"
  shows "ta_value (fst (toggleSQLComment (fst (toggleSQLComment ta s))
                                         (snd (toggleSQLComment ta s)))) = ta_value ta"
  using assms(2)
proof
  assume "\<not> prefix ''--'' (dropWhile is_space (ta_value ta))"
  then show ?thesis using toggle_twice_uncommented [OF assms(1) _ refl] by blast
next
  assume "\<exists>r. dropWhile is_space (ta_value ta) = ''-- '' @ r \<and> r \<noteq> []
                  \<and> \<not> is_space (hd r) \<and> \<not> prefix ''--'' r"
  then obtain r where "dropWhile is_space (ta_value ta) = ''-- '' @ r" "r \<noteq> []"
    "\<not> is_space (hd r)" "\<not> prefix ''--'' r" by blast
  then show ?thesis using toggle_twice_commented [OF assms(1) _ _ _ _ refl] by blast
qed

text \<open>
  Claim C9, amended, on an indented statement, which gains the token and loses it, and on a
  commented statement, which loses the token and regains it.
\<close>

theorem toggleSQLComment_twice_restores_witness:
  "ta_value (fst (toggleSQLComment (fst (toggleSQLComment (one_line_textarea ''  select 1'') (plain_notebook [(''a'', ''  select 1'')])))
                                   (snd (toggleSQLComment (one_line_textarea ''  select 1'') (plain_notebook [(''a'', ''  select 1'')])))))
     = ''  select 1''
   \<and> ta_value (fst (toggleSQLComment (one_line_textarea ''  select 1'') (plain_notebook [(''a'', ''  select 1'')])))
     = ''  -- select 1''
   \<and> ta_value (fst (toggleSQLComment (fst (toggleSQLComment (one_line_textarea ''-- select 1'') (plain_notebook [(''a'', ''-- select 1'')])))
                                   (snd (toggleSQLComment (one_line_textarea ''-- select 1'') (plain_notebook [(''a'', ''-- select 1'')])))))
     = ''-- select 1''
   \<and> ta_value (fst (toggleSQLComment (one_line_textarea ''-- select 1'') (plain_notebook [(''a'', ''-- select 1'')])))
     = ''select 1''"
proof -
  let ?u = "one_line_textarea ''  select 1''"
  let ?c = "one_line_textarea ''-- select 1''"
  have u1: "\<forall>c\<in>set (ta_value ?u). \<not> is_line_terminator c"
    by (simp add: one_line_textarea_def is_line_terminator_def)
  have u2: "\<not> prefix ''--'' (dropWhile is_space (ta_value ?u))
         \<or> (\<exists>r. dropWhile is_space (ta_value ?u) = ''-- '' @ r \<and> r \<noteq> []
                  \<and> \<not> is_space (hd r) \<and> \<not> prefix ''--'' r)"
    by (simp add: one_line_textarea_def is_space_def)
  have c1: "\<forall>c\<in>set (ta_value ?c). \<not> is_line_terminator c"
    by (simp add: one_line_textarea_def is_line_terminator_def)
  have "dropWhile is_space (ta_value ?c) = ''-- '' @ ''select 1'' \<and> ''select 1'' \<noteq> []
                  \<and> \<not> is_space (hd ''select 1'') \<and> \<not> prefix ''--'' ''select 1''"
    by (simp add: one_line_textarea_def is_space_def)
  then have c2: "\<not> prefix ''--'' (dropWhile is_space (ta_value ?c))
         \<or> (\<exists>r. dropWhile is_space (ta_value ?c) = ''-- '' @ r \<and> r \<noteq> []
                  \<and> \<not> is_space (hd r) \<and> \<not> prefix ''--'' r)"
    by blast
  have nu: "CHR 0x0A \<notin> set (ta_value ?u)" by (simp add: one_line_textarea_def)
  have nc: "CHR 0x0A \<notin> set (ta_value ?c)" by (simp add: one_line_textarea_def)
  have fu: "ta_value (fst (toggleSQLComment ?u (plain_notebook [(''a'', ''  select 1'')]))) = ''  -- select 1''"
    unfolding toggle_single_line [OF nu]
    by (simp add: one_line_textarea_def trim_def add_comment_def is_space_def is_line_terminator_def)
  have fc: "ta_value (fst (toggleSQLComment ?c (plain_notebook [(''a'', ''-- select 1'')]))) = ''select 1''"
    unfolding toggle_single_line [OF nc]
    by (simp add: one_line_textarea_def trim_def remove_comment_def is_space_def)
  have vu: "ta_value ?u = ''  select 1''" by (simp add: one_line_textarea_def)
  have vc: "ta_value ?c = ''-- select 1''" by (simp add: one_line_textarea_def)
  show ?thesis
    using toggleSQLComment_twice_restores [OF u1 u2, of "plain_notebook [(''a'', ''  select 1'')]"]
      toggleSQLComment_twice_restores [OF c1 c2, of "plain_notebook [(''a'', ''-- select 1'')]"]
      fu fc unfolding vu vc by blast
qed

text \<open>
  Claim C9 as stated fails on the line \<open>--x\<close>, where no space follows the token: the first
  toggle gives \<open>x\<close> and the second \<open>-- x\<close>, one character longer than the original.
\<close>

theorem toggleSQLComment_twice_counterexample:
  "ta_value (fst (toggleSQLComment (one_line_textarea ''--x'') (plain_notebook [(''a'', ''--x'')]))) = ''x''
   \<and> ta_value (fst (toggleSQLComment
         (fst (toggleSQLComment (one_line_textarea ''--x'') (plain_notebook [(''a'', ''--x'')])))
         (snd (toggleSQLComment (one_line_textarea ''--x'') (plain_notebook [(''a'', ''--x'')])))))
       = ''-- x''
   \<and> ta_value (one_line_textarea ''--x'') = ''--x''"
proof -
  let ?t = "one_line_textarea ''--x''"
  let ?s = "plain_notebook [(''a'', ''--x'')]"
  have n: "CHR 0x0A \<notin> set (ta_value ?t)" by (simp add: one_line_textarea_def)
  have 1: "ta_value (fst (toggleSQLComment ?t ?s)) = ''x''"
    unfolding toggle_single_line [OF n]
    by (simp add: one_line_textarea_def trim_def remove_comment_def is_space_def)
  have n1: "CHR 0x0A \<notin> set (ta_value (fst (toggleSQLComment ?t ?s)))" unfolding 1 by simp
  have 2: "ta_value (fst (toggleSQLComment (fst (toggleSQLComment ?t ?s)) (snd (toggleSQLComment ?t ?s)))) = ''-- x''"
    unfolding toggle_single_line [OF n1] 1
    by (simp add: trim_def add_comment_def is_space_def is_line_terminator_def)
  show ?thesis using 1 2 by (simp add: one_line_textarea_def)
qed

section \<open>The Joiner after a deletion or an insertion\<close>

lemma notebook_with_editors_active:
  "aceEditor (notebook_with_editors cs) = Some \<lparr>buffer = [], setValue_calls = 0\<rparr>"
  "isNotebookMode (notebook_with_editors cs)"
  by (simp_all add: notebook_with_editors_def plain_notebook_def)

lemma deleteCell_joins_by_old_index:
  "map content (cells (deleteCell 17 0 (notebook_with_editors [(''a'', ''A''), (''b'', ''B''), (''c'', ''C'')])))
     = [''B'', ''C'']
   \<and> current_buffer (deleteCell 17 0 (notebook_with_editors [(''a'', ''A''), (''b'', ''B''), (''c'', ''C'')]))
     = Some (''B;'' @ [CHR 0x0A, CHR 0x0A] @ ''B'')"
proof -
  let ?s = "notebook_with_editors [(''a'', ''A''), (''b'', ''B''), (''c'', ''C'')]"
  let ?s1 = "?s\<lparr>cellEditors := (cellEditors ?s)(0 := None)\<rparr>"
  let ?s2 = "?s1\<lparr>cells := drop 1 (cells ?s1)\<rparr>"
  define s3 where "s3 = renderCells 17 ?s2"
  have c2: "cells ?s2 = [\<lparr>cell_id = ''b'', content = ''B''\<rparr>, \<lparr>cell_id = ''c'', content = ''C''\<rparr>]"
    by (simp add: notebook_with_editors_def plain_notebook_def)
  have c3: "cells s3 = cells ?s2" unfolding s3_def using c2 by (simp add: cells_renderCells)
  have e3: "cellEditors s3 = cellEditors ?s1" unfolding s3_def using c2 by (simp add: renderCells_nonempty)
  have a3: "aceEditor s3 = Some \<lparr>buffer = [], setValue_calls = 0\<rparr>"
    unfolding s3_def using c2
    by (simp add: renderCells_nonempty) (simp add: notebook_with_editors_def plain_notebook_def)
  have n3: "isNotebookMode s3"
    unfolding s3_def using c2
    by (simp add: renderCells_nonempty) (simp add: notebook_with_editors_def plain_notebook_def)
  have l: "[0..<length (cells s3)] = [0, Suc 0]" unfolding c3 c2 by (simp add: upt_conv_Cons)
  have r: "registered_content s3 0 = ''B''" "registered_content s3 (Suc 0) = ''B''"
    unfolding registered_content_def e3 c3 c2
    by (simp_all add: notebook_with_editors_def plain_notebook_def)
  have j: "joined_contents s3 = ''B;'' @ [CHR 0x0A, CHR 0x0A] @ ''B''"
    unfolding joined_contents_def l by (simp add: r trim_def is_space_def)
  have b: "current_buffer (syncCellsToAceEditor s3) = Some (''B;'' @ [CHR 0x0A, CHR 0x0A] @ ''B'')"
    unfolding current_buffer_sync [OF a3 n3] j by simp
  have d: "deleteCell 17 0 ?s =
             (syncCellsToAceEditor s3)
               \<lparr>timeouts := timeouts (syncCellsToAceEditor s3) @ [(100, FocusCell 0)]\<rparr>"
    unfolding s3_def
    by (simp add: deleteCell_def Let_def cells_renderCells)
       (simp add: notebook_with_editors_def plain_notebook_def)
  have "cells (deleteCell 17 0 ?s) = cells s3" unfolding d by simp
  also note c3
  also note c2
  finally have "map content (cells (deleteCell 17 0 ?s)) = [''B'', ''C'']" by simp
  moreover have "current_buffer (deleteCell 17 0 ?s) = Some (''B;'' @ [CHR 0x0A, CHR 0x0A] @ ''B'')"
    unfolding d using b by (simp add: current_buffer_def)
  ultimately show ?thesis by blast
qed

lemma addNewCell_joins_by_old_index:
  "map content (cells (addNewCell 17 (Some 1) (notebook_with_editors [(''a'', ''A''), (''b'', ''B'')])))
     = [''A'', [], ''B'']
   \<and> current_buffer (addNewCell 17 (Some 1) (notebook_with_editors [(''a'', ''A''), (''b'', ''B'')]))
     = Some (''A;'' @ [CHR 0x0A, CHR 0x0A] @ ''B;'' @ [CHR 0x0A, CHR 0x0A] @ ''B'')"
proof -
  let ?s = "notebook_with_editors [(''a'', ''A''), (''b'', ''B'')]"
  let ?new = "\<lparr>cell_id = ''cell_'' @ number_to_string 17, content = []\<rparr>"
  let ?s1 = "?s\<lparr>cells := take (nat 1) (cells ?s) @ [?new] @ drop (nat 1) (cells ?s)\<rparr>"
  define s2 where "s2 = renderCells 17 ?s1"
  have c1: "cells ?s1 = [\<lparr>cell_id = ''a'', content = ''A''\<rparr>, ?new, \<lparr>cell_id = ''b'', content = ''B''\<rparr>]"
    by (simp add: notebook_with_editors_def plain_notebook_def)
  have c2: "cells s2 = cells ?s1" unfolding s2_def using c1 by (simp add: cells_renderCells)
  have e2: "cellEditors s2 = cellEditors ?s" unfolding s2_def using c1 by (simp add: renderCells_nonempty)
  have a2: "aceEditor s2 = Some \<lparr>buffer = [], setValue_calls = 0\<rparr>"
    unfolding s2_def using c1
    by (simp add: renderCells_nonempty) (simp add: notebook_with_editors_def plain_notebook_def)
  have n2: "isNotebookMode s2"
    unfolding s2_def using c1
    by (simp add: renderCells_nonempty) (simp add: notebook_with_editors_def plain_notebook_def)
  have l: "[0..<length (cells s2)] = [0, Suc 0, Suc (Suc 0)]"
    unfolding c2 c1 by (simp add: upt_conv_Cons)
  have r: "registered_content s2 0 = ''A''" "registered_content s2 (Suc 0) = ''B''"
    "registered_content s2 (Suc (Suc 0)) = ''B''"
    unfolding registered_content_def e2 c2 c1
    by (simp_all add: notebook_with_editors_def plain_notebook_def)
  have j: "joined_contents s2 = ''A;'' @ [CHR 0x0A, CHR 0x0A] @ ''B;'' @ [CHR 0x0A, CHR 0x0A] @ ''B''"
    unfolding joined_contents_def l by (simp add: r trim_def is_space_def)
  have b: "current_buffer (syncCellsToAceEditor s2)
             = Some (''A;'' @ [CHR 0x0A, CHR 0x0A] @ ''B;'' @ [CHR 0x0A, CHR 0x0A] @ ''B'')"
    unfolding current_buffer_sync [OF a2 n2] j by simp
  have d: "addNewCell 17 (Some 1) ?s =
             (syncCellsToAceEditor s2)
               \<lparr>timeouts := timeouts (syncCellsToAceEditor s2) @ [(100, FocusNewCell (Some 1))]\<rparr>"
    unfolding s2_def addNewCell.simps [of 17 "Some 1" ?s] Let_def
    by (simp add: notebook_with_editors_def plain_notebook_def)
  have "cells (addNewCell 17 (Some 1) ?s) = cells s2" unfolding d by simp
  also note c2
  also note c1
  finally have "map content (cells (addNewCell 17 (Some 1) ?s)) = [''A'', [], ''B'']" by simp
  moreover have "current_buffer (addNewCell 17 (Some 1) ?s)
             = Some (''A;'' @ [CHR 0x0A, CHR 0x0A] @ ''B;'' @ [CHR 0x0A, CHR 0x0A] @ ''B'')"
    unfolding d using b by (simp add: current_buffer_def)
  ultimately show ?thesis by blast
qed

text \<open>
  Claim C2 fails in passes of the Joiner that the cell operations themselves run. The Joiner
  looks a sub-widget up under the index of the cell, and \<open>deleteCell\<close> and \<open>addNewCell\<close> run it
  after the cells have moved and before the sub-widgets of the rendered cells are created, so
  the entry found under an index is the one created for the cell that was there before. In a
  notebook where every cell has a sub-widget that shows its stored content: deleting the first
  of the cells \<open>A\<close>, \<open>B\<close>, \<open>C\<close> leaves the cells \<open>B\<close> and \<open>C\<close> and writes \<open>B\<close> twice, so the
  content of \<open>C\<close> is not in the buffer; adding a cell at position 1 between \<open>A\<close> and \<open>B\<close> gives
  the cells \<open>A\<close>, blank, \<open>B\<close> and writes \<open>A\<close>, \<open>B\<close>, \<open>B\<close>, so the blank cell is not left out.
\<close>

theorem joiner_reads_neighbours_sub_widget:
  "map content (cells (deleteCell 17 0 (notebook_with_editors [(''a'', ''A''), (''b'', ''B''), (''c'', ''C'')])))
     = [''B'', ''C'']
   \<and> current_buffer (deleteCell 17 0 (notebook_with_editors [(''a'', ''A''), (''b'', ''B''), (''c'', ''C'')]))
     = Some (''B;'' @ [CHR 0x0A, CHR 0x0A] @ ''B'')
   \<and> map content (cells (addNewCell 17 (Some 1) (notebook_with_editors [(''a'', ''A''), (''b'', ''B'')])))
     = [''A'', [], ''B'']
   \<and> current_buffer (addNewCell 17 (Some 1) (notebook_with_editors [(''a'', ''A''), (''b'', ''B'')]))
     = Some (''A;'' @ [CHR 0x0A, CHR 0x0A] @ ''B;'' @ [CHR 0x0A, CHR 0x0A] @ ''B'')"
  using deleteCell_joins_by_old_index addNewCell_joins_by_old_index by blast

end
